theory Spec2Isabelle
  imports Complex_Main "HOL-Library.Sublist"
begin

section \<open>JavaScript strings\<close>

text \<open>
  A JavaScript string is a sequence of UTF-16 code units; \<open>length\<close>, \<open>split('')\<close>,
  indexing and regular expressions without the \<open>u\<close> flag all work on code units.
  A code unit is modelled by its number, a string by the list of its code units.
  ASCII literals are written \<open>asc ''...''\<close>; Cyrillic letters have the names below
  (small letters \<open>cy_...\<close>, capitals \<open>CY_...\<close>), each standing for its code unit.
\<close>

type_synonym uchar = nat
type_synonym ustring = "uchar list"

abbreviation asc :: "string \<Rightarrow> ustring" where "asc s \<equiv> map of_char s"

abbreviation cy_a :: uchar where "cy_a \<equiv> 1072"
abbreviation cy_b :: uchar where "cy_b \<equiv> 1073"
abbreviation cy_v :: uchar where "cy_v \<equiv> 1074"
abbreviation cy_g :: uchar where "cy_g \<equiv> 1075"
abbreviation cy_d :: uchar where "cy_d \<equiv> 1076"
abbreviation cy_e :: uchar where "cy_e \<equiv> 1077"
abbreviation cy_zh :: uchar where "cy_zh \<equiv> 1078"
abbreviation cy_z :: uchar where "cy_z \<equiv> 1079"
abbreviation cy_i :: uchar where "cy_i \<equiv> 1080"
abbreviation cy_j :: uchar where "cy_j \<equiv> 1081"
abbreviation cy_k :: uchar where "cy_k \<equiv> 1082"
abbreviation cy_l :: uchar where "cy_l \<equiv> 1083"
abbreviation cy_m :: uchar where "cy_m \<equiv> 1084"
abbreviation cy_n :: uchar where "cy_n \<equiv> 1085"
abbreviation cy_o :: uchar where "cy_o \<equiv> 1086"
abbreviation cy_p :: uchar where "cy_p \<equiv> 1087"
abbreviation cy_r :: uchar where "cy_r \<equiv> 1088"
abbreviation cy_s :: uchar where "cy_s \<equiv> 1089"
abbreviation cy_t :: uchar where "cy_t \<equiv> 1090"
abbreviation cy_u :: uchar where "cy_u \<equiv> 1091"
abbreviation cy_f :: uchar where "cy_f \<equiv> 1092"
abbreviation cy_kh :: uchar where "cy_kh \<equiv> 1093"
abbreviation cy_ts :: uchar where "cy_ts \<equiv> 1094"
abbreviation cy_ch :: uchar where "cy_ch \<equiv> 1095"
abbreviation cy_sh :: uchar where "cy_sh \<equiv> 1096"
abbreviation cy_shch :: uchar where "cy_shch \<equiv> 1097"
abbreviation cy_hard :: uchar where "cy_hard \<equiv> 1098"
abbreviation cy_y :: uchar where "cy_y \<equiv> 1099"
abbreviation cy_soft :: uchar where "cy_soft \<equiv> 1100"
abbreviation cy_eh :: uchar where "cy_eh \<equiv> 1101"
abbreviation cy_yu :: uchar where "cy_yu \<equiv> 1102"
abbreviation cy_ya :: uchar where "cy_ya \<equiv> 1103"
abbreviation cy_yo :: uchar where "cy_yo \<equiv> 1105"

abbreviation CY_A :: uchar where "CY_A \<equiv> 1040"
abbreviation CY_B :: uchar where "CY_B \<equiv> 1041"
abbreviation CY_V :: uchar where "CY_V \<equiv> 1042"
abbreviation CY_G :: uchar where "CY_G \<equiv> 1043"
abbreviation CY_D :: uchar where "CY_D \<equiv> 1044"
abbreviation CY_E :: uchar where "CY_E \<equiv> 1045"
abbreviation CY_I :: uchar where "CY_I \<equiv> 1048"
abbreviation CY_K :: uchar where "CY_K \<equiv> 1050"
abbreviation CY_L :: uchar where "CY_L \<equiv> 1051"
abbreviation CY_M :: uchar where "CY_M \<equiv> 1052"
abbreviation CY_N :: uchar where "CY_N \<equiv> 1053"
abbreviation CY_O :: uchar where "CY_O \<equiv> 1054"
abbreviation CY_P :: uchar where "CY_P \<equiv> 1055"
abbreviation CY_R :: uchar where "CY_R \<equiv> 1056"
abbreviation CY_S :: uchar where "CY_S \<equiv> 1057"
abbreviation CY_T :: uchar where "CY_T \<equiv> 1058"
abbreviation CY_TS :: uchar where "CY_TS \<equiv> 1062"
abbreviation CY_SH :: uchar where "CY_SH \<equiv> 1064"

text \<open>
  WhiteSpace and LineTerminator of ECMAScript: the class \<open>\s\<close> of regular expressions
  and the characters removed by \<open>String.prototype.trim\<close>.
\<close>

definition isLineTerminator :: "uchar \<Rightarrow> bool" where
  "isLineTerminator c \<longleftrightarrow> c = 10 \<or> c = 13 \<or> c = 8232 \<or> c = 8233"

definition isWhiteSpace :: "uchar \<Rightarrow> bool" where
  "isWhiteSpace c \<longleftrightarrow>
     c = 9 \<or> c = 10 \<or> c = 11 \<or> c = 12 \<or> c = 13 \<or> c = 32 \<or> c = 160 \<or> c = 5760 \<or>
     (8192 \<le> c \<and> c \<le> 8202) \<or> c = 8232 \<or> c = 8233 \<or> c = 8239 \<or> c = 8287 \<or>
     c = 12288 \<or> c = 65279"

definition trimStart :: "ustring \<Rightarrow> ustring" where
  "trimStart s = dropWhile isWhiteSpace s"

definition trimEnd :: "ustring \<Rightarrow> ustring" where
  "trimEnd s = rev (dropWhile isWhiteSpace (rev s))"

definition trim :: "ustring \<Rightarrow> ustring" where
  "trim s = trimEnd (trimStart s)"

definition isDigit :: "uchar \<Rightarrow> bool" where
  "isDigit c \<longleftrightarrow> 48 \<le> c \<and> c \<le> 57"

definition isAsciiLower :: "uchar \<Rightarrow> bool" where
  "isAsciiLower c \<longleftrightarrow> 97 \<le> c \<and> c \<le> 122"

definition isAsciiUpper :: "uchar \<Rightarrow> bool" where
  "isAsciiUpper c \<longleftrightarrow> 65 \<le> c \<and> c \<le> 90"

text \<open>
  \<open>String.prototype.toLowerCase\<close>, given on Basic Latin, on the Latin-1 Supplement, on
  the Cyrillic block (U+0400 to U+042F map to U+0450 to U+045F and U+0430 to U+044F),
  on the Kelvin and the Angstrom sign, and on U+0130, whose lower case is the two
  code units \<open>i\<close> and U+0307. The case mappings of the other scripts are not
  modelled, and their code units are left as they are; the claims that use this
  function are about strings of Basic Latin and Cyrillic letters, or hold whatever
  the mapping does.
\<close>

definition lowerChar :: "uchar \<Rightarrow> uchar" where
  "lowerChar c =
     (if isAsciiUpper c then c + 32
      else if (192 \<le> c \<and> c \<le> 214) \<or> (216 \<le> c \<and> c \<le> 222) then c + 32
      else if 1040 \<le> c \<and> c \<le> 1071 then c + 32
      else if 1024 \<le> c \<and> c \<le> 1039 then c + 80
      else if c = 8490 then 107
      else if c = 8491 then 229
      else c)"

definition lowerUnits :: "uchar \<Rightarrow> ustring" where
  "lowerUnits c = (if c = 304 then [105, 775] else [lowerChar c])"

definition toLowerCase :: "ustring \<Rightarrow> ustring" where
  "toLowerCase s = concat (map lowerUnits s)"

text \<open>
  Canonicalize of a regular expression with the \<open>i\<close> flag and without the \<open>u\<close> flag:
  the upper-case mapping of the code unit, kept only when it is a single code unit and
  does not take a non-ASCII character into ASCII. It is given on Basic Latin, on the
  Cyrillic block and on the Cyrillic Extended-C letters U+1C80 to U+1C88, whose capitals
  are in the Cyrillic block.
\<close>

definition canonicalize :: "uchar \<Rightarrow> uchar" where
  "canonicalize c =
     (if isAsciiLower c then c - 32
      else if 1072 \<le> c \<and> c \<le> 1103 then c - 32
      else if 1104 \<le> c \<and> c \<le> 1119 then c - 80
      else if c = 7296 then 1042
      else if c = 7297 then 1044
      else if c = 7298 then 1054
      else if c = 7299 then 1057
      else if c = 7300 \<or> c = 7301 then 1058
      else if c = 7302 then 1066
      else if c = 7303 then 1122
      else if c = 7304 then 42570
      else c)"

text \<open>A literal pattern matched at the start of a string, ignoring case.\<close>

fun ciPrefix :: "ustring \<Rightarrow> ustring \<Rightarrow> bool" where
  "ciPrefix [] s = True"
| "ciPrefix (p # ps) [] = False"
| "ciPrefix (p # ps) (c # cs) = (canonicalize p = canonicalize c \<and> ciPrefix ps cs)"

text \<open>\<open>String.prototype.includes\<close>: the argument occurs somewhere in the string.\<close>

fun str_includes :: "ustring \<Rightarrow> ustring \<Rightarrow> bool" where
  "str_includes [] k = (k = [])"
| "str_includes (c # cs) k = (prefix k (c # cs) \<or> str_includes cs k)"

text \<open>\<open>Array.prototype.join\<close> of strings with a separator.\<close>

fun join :: "ustring \<Rightarrow> ustring list \<Rightarrow> ustring" where
  "join sep [] = []"
| "join sep [x] = x"
| "join sep (x # y # ys) = x @ sep @ join sep (y # ys)"

section \<open>canonical.ts: the canonical key\<close>

text \<open>The table \<open>RU_TO_LAT\<close>.\<close>

definition RU_TO_LAT :: "(uchar \<times> ustring) list" where
  "RU_TO_LAT =
    [(cy_a, asc ''a''), (cy_b, asc ''b''), (cy_v, asc ''v''), (cy_g, asc ''g''),
     (cy_d, asc ''d''), (cy_e, asc ''e''), (cy_yo, asc ''yo''), (cy_zh, asc ''zh''),
     (cy_z, asc ''z''), (cy_i, asc ''i''), (cy_j, asc ''y''), (cy_k, asc ''k''),
     (cy_l, asc ''l''), (cy_m, asc ''m''), (cy_n, asc ''n''), (cy_o, asc ''o''),
     (cy_p, asc ''p''), (cy_r, asc ''r''), (cy_s, asc ''s''), (cy_t, asc ''t''),
     (cy_u, asc ''u''), (cy_f, asc ''f''), (cy_kh, asc ''kh''), (cy_ts, asc ''ts''),
     (cy_ch, asc ''ch''), (cy_sh, asc ''sh''), (cy_shch, asc ''shch''), (cy_hard, []),
     (cy_y, asc ''y''), (cy_soft, []), (cy_eh, asc ''e''), (cy_yu, asc ''yu''),
     (cy_ya, asc ''ya'')]"

definition translitChar :: "uchar \<Rightarrow> ustring" where
  "translitChar c = (case map_of RU_TO_LAT c of Some t \<Rightarrow> t | None \<Rightarrow> [c])"

definition transliterate :: "ustring \<Rightarrow> ustring" where
  "transliterate text = concat (map translitChar (toLowerCase text))"

definition isSlugAlnum :: "uchar \<Rightarrow> bool" where
  "isSlugAlnum c \<longleftrightarrow> isAsciiLower c \<or> isDigit c"

text \<open>
  \<open>.replace(/[^a-z0-9]+/g, '_')\<close>: every maximal run of characters outside \<open>[a-z0-9]\<close>
  becomes one underscore. The flag says that the scan is inside such a run, whose
  underscore has been written already.
\<close>

fun replaceRuns :: "bool \<Rightarrow> ustring \<Rightarrow> ustring" where
  "replaceRuns inRun [] = []"
| "replaceRuns inRun (c # cs) =
     (if isSlugAlnum c then c # replaceRuns False cs
      else if inRun then replaceRuns True cs
      else 95 # replaceRuns True cs)"

text \<open>\<open>.replace(/^_+|_+$/g, '')\<close>: the leading and the trailing underscores go.\<close>

definition stripUnderscores :: "ustring \<Rightarrow> ustring" where
  "stripUnderscores s = rev (dropWhile (\<lambda>c. c = 95) (rev (dropWhile (\<lambda>c. c = 95) s)))"

text \<open>\<open>.replace(/_+/g, '_')\<close>: a run of underscores becomes one.\<close>

fun collapseUnderscores :: "ustring \<Rightarrow> ustring" where
  "collapseUnderscores (c # d # cs) =
     (if c = 95 \<and> d = 95 then collapseUnderscores (d # cs)
      else c # collapseUnderscores (d # cs))"
| "collapseUnderscores s = s"

definition slugify :: "ustring \<Rightarrow> ustring" where
  "slugify text = collapseUnderscores (stripUnderscores (replaceRuns False (transliterate text)))"

text \<open>
  \<open>.replace(/\s*LIT/gi, '')\<close> for a literal \<open>LIT\<close> that starts with a character that is
  not white space: scanning from the left, at each position the white space is skipped
  (\<open>\s*\<close> is greedy, and giving white space back leaves a white-space character where
  the literal has none), and when the literal follows, ignoring case, the white space
  and the literal are removed and the scan goes on behind them; otherwise the
  character at the position is kept.
\<close>

function removeNoise :: "ustring \<Rightarrow> ustring \<Rightarrow> ustring" where
  "removeNoise lit [] = []"
| "removeNoise lit (c # cs) =
     (if lit \<noteq> [] \<and> ciPrefix lit (dropWhile isWhiteSpace (c # cs))
      then removeNoise lit (drop (length lit) (dropWhile isWhiteSpace (c # cs)))
      else c # removeNoise lit cs)"
  by pat_completeness auto
termination
proof (relation "measure (\<lambda>(lit, s). length s)")
  show "wf (measure (\<lambda>(lit, s). length s))" by simp
next
  fix lit :: ustring and c cs
  assume a: "lit \<noteq> [] \<and> ciPrefix lit (dropWhile isWhiteSpace (c # cs))"
  define r where "r = dropWhile isWhiteSpace (c # cs)"
  have len: "ciPrefix p s \<Longrightarrow> length p \<le> length s" for p s
    by (induction p s rule: ciPrefix.induct) auto
  have "length r \<le> length (c # cs)"
    unfolding r_def by (rule length_dropWhile_le)
  moreover have "length lit \<le> length r"
    using a len unfolding r_def by blast
  moreover have "0 < length lit" using a by simp
  ultimately have "length (drop (length lit) r) < length (c # cs)"
    by (cases lit) auto
  then show "((lit, drop (length lit) (dropWhile isWhiteSpace (c # cs))), (lit, c # cs))
      \<in> measure (\<lambda>(lit, s). length s)"
    unfolding r_def by simp
next
  fix lit :: ustring and c cs
  show "((lit, cs), (lit, c # cs)) \<in> measure (\<lambda>(lit, s). length s)" by simp
qed

definition isQuote :: "uchar \<Rightarrow> bool" where
  "isQuote c \<longleftrightarrow> c = 34 \<or> c = 171 \<or> c = 187"

definition NOISE_PAREN :: ustring where
  "NOISE_PAREN = [40, cy_i, cy_l, cy_i, 32, cy_a, cy_n, cy_a, cy_l, cy_o, cy_g, 41]"

definition NOISE_OR :: ustring where
  "NOISE_OR = [cy_i, cy_l, cy_i, 32, cy_a, cy_n, cy_a, cy_l, cy_o, cy_g]"

definition NOISE_ANALOG :: ustring where
  "NOISE_ANALOG = [cy_a, cy_n, cy_a, cy_l, cy_o, cy_g]"

definition generateCanonicalKey :: "ustring \<Rightarrow> ustring" where
  "generateCanonicalKey name =
     (let cleaned =
        trim (filter (\<lambda>c. \<not> isQuote c)
          (removeNoise NOISE_ANALOG (removeNoise NOISE_OR (removeNoise NOISE_PAREN name))))
      in slugify cleaned)"


section \<open>types/parser.ts and types/extraction.ts: the data model\<close>

record ParsedTable =
  headers :: "ustring list"
  rows :: "ustring list list"
  sectionContext :: "ustring option"

datatype BlockType = TEXT | IMAGE

record ParsedBlock =
  uid :: ustring
  type :: BlockType
  content :: ustring
  hasTable :: bool
  hasError :: bool
  errorText :: "ustring option"
  sectionTitle :: "ustring option"
  tables :: "ParsedTable list"

record ParsedPage =
  pageNo :: nat
  sheetLabel :: "ustring option"
  sheetName :: "ustring option"
  blocks :: "ParsedBlock list"

record ParsedDocument =
  title :: ustring
  generated :: "ustring option"
  stampText :: "ustring option"
  docCode :: "ustring option"
  pages :: "ParsedPage list"
  totalBlocks :: nat
  errorBlocks :: nat

datatype TableCategory =
  material_qty | spec_elements | element_spec | floor_spec | roof_spec
  | room_schedule | change_log | unknown

section \<open>tableClassifier.ts\<close>

text \<open>
  The keywords of the classifier, in Cyrillic in the source. The name of each constant
  is the transliteration of the keyword.
\<close>

definition KW_izm :: ustring where "KW_izm = [cy_i, cy_z, cy_m]"
definition KW_podp :: ustring where "KW_podp = [cy_p, cy_o, cy_d, cy_p]"
definition KW_data :: ustring where "KW_data = [cy_d, cy_a, cy_t, cy_a]"
definition KW_no_pom :: ustring where "KW_no_pom = [8470, 32, cy_p, cy_o, cy_m]"
definition KW_nomer_pom :: ustring where
  "KW_nomer_pom = [cy_n, cy_o, cy_m, cy_e, cy_r, 32, cy_p, cy_o, cy_m]"
definition KW_ploshchad :: ustring where
  "KW_ploshchad = [cy_p, cy_l, cy_o, cy_shch, cy_a, cy_d, cy_soft]"
definition KW_naimenovanie :: ustring where
  "KW_naimenovanie =
     [cy_n, cy_a, cy_i, cy_m, cy_e, cy_n, cy_o, cy_v, cy_a, cy_n, cy_i, cy_e]"
definition KW_kolichestvo :: ustring where
  "KW_kolichestvo = [cy_k, cy_o, cy_l, cy_i, cy_ch, cy_e, cy_s, cy_t, cy_v, cy_o]"
definition KW_kol_vo :: ustring where "KW_kol_vo = [cy_k, cy_o, cy_l, 45, cy_v, cy_o]"
definition KW_kol :: ustring where "KW_kol = [cy_k, cy_o, cy_l]"
definition KW_ed :: ustring where "KW_ed = [cy_e, cy_d]"
definition KW_poz :: ustring where "KW_poz = [cy_p, cy_o, cy_z]"
definition KW_oboznachenie :: ustring where
  "KW_oboznachenie = [cy_o, cy_b, cy_o, cy_z, cy_n, cy_a, cy_ch, cy_e, cy_n, cy_i, cy_e]"
definition KW_marka :: ustring where "KW_marka = [cy_m, cy_a, cy_r, cy_k, cy_a]"
definition KW_sht :: ustring where "KW_sht = [cy_sh, cy_t]"
definition KW_tip_pola :: ustring where
  "KW_tip_pola = [cy_t, cy_i, cy_p, 32, cy_p, cy_o, cy_l, cy_a]"
definition KW_pol :: ustring where "KW_pol = [cy_p, cy_o, cy_l]"
definition KW_dannye_elementov :: ustring where
  "KW_dannye_elementov =
     [cy_d, cy_a, cy_n, cy_n, cy_y, cy_e, 32,
      cy_eh, cy_l, cy_e, cy_m, cy_e, cy_n, cy_t, cy_o, cy_v]"
definition KW_tip_pokrytiya :: ustring where
  "KW_tip_pokrytiya =
     [cy_t, cy_i, cy_p, 32, cy_p, cy_o, cy_k, cy_r, cy_y, cy_t, cy_i, cy_ya]"
definition KW_pokryt :: ustring where
  "KW_pokryt = [cy_p, cy_o, cy_k, cy_r, cy_y, cy_t]"
definition KW_naznachenie :: ustring where
  "KW_naznachenie = [cy_n, cy_a, cy_z, cy_n, cy_a, cy_ch, cy_e, cy_n, cy_i, cy_e]"

text \<open>\<open>h.some(x => x.includes(kw))\<close>.\<close>

definition someIncludes :: "ustring list \<Rightarrow> ustring \<Rightarrow> bool" where
  "someIncludes h kw = list_ex (\<lambda>x. str_includes x kw) h"

definition classifyTable :: "'a ParsedTable_scheme \<Rightarrow> TableCategory" where
  "classifyTable table =
     (let h = map (\<lambda>s. trim (toLowerCase s)) (headers table);
          joined = join [32] h
      in
        if someIncludes h KW_izm \<and> (someIncludes h KW_podp \<or> someIncludes h KW_data)
        then change_log
        else if (someIncludes h KW_no_pom \<or> someIncludes h KW_nomer_pom) \<and>
                someIncludes h KW_ploshchad
        then room_schedule
        else if someIncludes h KW_naimenovanie \<and>
                (someIncludes h KW_kolichestvo \<or> someIncludes h KW_kol_vo \<or>
                 someIncludes h KW_kol) \<and>
                (someIncludes h KW_ed \<or> someIncludes h KW_izm)
        then material_qty
        else if someIncludes h KW_naimenovanie \<and> someIncludes h KW_kolichestvo
        then material_qty
        else if someIncludes h KW_poz \<and>
                (someIncludes h KW_oboznachenie \<or> someIncludes h KW_naimenovanie) \<and>
                someIncludes h KW_kol
        then spec_elements
        else if someIncludes h KW_marka \<and> (someIncludes h KW_kol \<or> someIncludes h KW_sht)
        then element_spec
        else if str_includes joined KW_tip_pola \<or>
                (someIncludes h KW_pol \<and> someIncludes h KW_dannye_elementov)
        then floor_spec
        else if str_includes joined KW_tip_pokrytiya \<or>
                (str_includes joined KW_pokryt \<and> someIncludes h KW_dannye_elementov)
        then roof_spec
        else if someIncludes h KW_poz \<and>
                (someIncludes h KW_naimenovanie \<or> someIncludes h KW_naznachenie)
        then spec_elements
        else unknown)"

definition isExtractableCategory :: "TableCategory \<Rightarrow> bool" where
  "isExtractableCategory category \<longleftrightarrow> category \<noteq> change_log \<and> category \<noteq> room_schedule"

section \<open>JavaScript numbers\<close>

text \<open>
  A number is modelled by the exact value of the decimal literal it was read from;
  the rounding of that value to a binary64 float, the overflow of large values to an
  infinity and the sign of zero are not modelled. The string form of a number
  (\<open>Number.prototype.toString\<close>, and a number in a template literal) is a parameter
  \<open>numStr\<close> of the functions that use it.
\<close>

datatype jsnumber = NaN | PosInfinity | NegInfinity | Fin rat

definition negate :: "jsnumber \<Rightarrow> jsnumber" where
  "negate x = (case x of NaN \<Rightarrow> NaN | PosInfinity \<Rightarrow> NegInfinity
                | NegInfinity \<Rightarrow> PosInfinity | Fin r \<Rightarrow> Fin (- r))"

definition digitsVal :: "ustring \<Rightarrow> nat" where
  "digitsVal ds = foldl (\<lambda>a c. 10 * a + (c - 48)) 0 ds"

definition pow10 :: "int \<Rightarrow> rat" where
  "pow10 e = (if 0 \<le> e then 10 ^ nat e else 1 / 10 ^ nat (- e))"

text \<open>
  ExponentPart at the start of a string: \<open>e\<close> or \<open>E\<close>, an optional sign and at least
  one digit. The result is the text of the part and its value; without an exponent
  part the text is empty and the value 0.
\<close>

definition exponentPart :: "ustring \<Rightarrow> ustring \<times> int" where
  "exponentPart s =
     (if s \<noteq> [] \<and> (hd s = 101 \<or> hd s = 69) then
        (let r = tl s;
             sg = (if r \<noteq> [] \<and> (hd r = 43 \<or> hd r = 45) then [hd r] else []);
             ds = takeWhile isDigit (drop (length sg) r)
         in if ds = [] then ([], 0)
            else (hd s # sg @ ds,
                  (if sg = [45] then - int (digitsVal ds) else int (digitsVal ds))))
      else ([], 0))"

text \<open>
  The longest prefix of a string that is a StrUnsignedDecimalLiteral, with its value;
  \<open>None\<close> when no prefix is one.
\<close>

definition unsignedDecimalLiteral :: "ustring \<Rightarrow> (ustring \<times> jsnumber) option" where
  "unsignedDecimalLiteral s =
     (if prefix (asc ''Infinity'') s then Some (asc ''Infinity'', PosInfinity)
      else
        (let ip = takeWhile isDigit s; r1 = dropWhile isDigit s in
         if r1 \<noteq> [] \<and> hd r1 = 46 then
           (let fp = takeWhile isDigit (tl r1);
                ex = exponentPart (dropWhile isDigit (tl r1))
            in if ip = [] \<and> fp = [] then None
               else Some (ip @ [46] @ fp @ fst ex,
                          Fin (of_nat (digitsVal (ip @ fp)) * pow10 (snd ex - int (length fp)))))
         else if ip = [] then None
         else (let ex = exponentPart r1
               in Some (ip @ fst ex, Fin (of_nat (digitsVal ip) * pow10 (snd ex))))))"

text \<open>The longest prefix that is a StrDecimalLiteral (a sign may come first).\<close>

definition strDecimalLiteral :: "ustring \<Rightarrow> (ustring \<times> jsnumber) option" where
  "strDecimalLiteral s =
     (if s \<noteq> [] \<and> hd s = 43 then
        map_option (\<lambda>(p, v). (43 # p, v)) (unsignedDecimalLiteral (tl s))
      else if s \<noteq> [] \<and> hd s = 45 then
        map_option (\<lambda>(p, v). (45 # p, negate v)) (unsignedDecimalLiteral (tl s))
      else unsignedDecimalLiteral s)"

text \<open>
  \<open>parseFloat\<close>: leading white space is skipped, and the result is the value of the
  longest prefix of the rest that is a decimal literal, \<open>NaN\<close> when there is none.
  What follows the prefix is ignored.
\<close>

definition parseFloat :: "ustring \<Rightarrow> jsnumber" where
  "parseFloat s = (case strDecimalLiteral (trimStart s) of None \<Rightarrow> NaN | Some (p, v) \<Rightarrow> v)"

text \<open>\<open>.replace(',', '.')\<close> with a string pattern: the first occurrence only.\<close>

fun replaceFirst :: "uchar \<Rightarrow> uchar \<Rightarrow> ustring \<Rightarrow> ustring" where
  "replaceFirst a b [] = []"
| "replaceFirst a b (c # cs) = (if c = a then b # cs else c # replaceFirst a b cs)"

section \<open>extraction.ts: rule-based extraction\<close>

record MaterialFactItem =
  raw_name :: ustring
  canonical_name :: "ustring option"
  canonical_key :: "ustring option"
  quantity :: "jsnumber option"
  unit :: "ustring option"
  mark :: "ustring option"
  gost :: "ustring option"
  description :: "ustring option"
  item_note :: "ustring option"
  source_snippet :: "ustring option"
  confidence :: jsnumber

text \<open>
  The field \<open>note\<close> of the source is \<open>item_note\<close> here. A value that can be \<open>null\<close>
  or \<open>undefined\<close> is an option; \<open>falsy\<close> is the test \<open>!x\<close> on a string that can be so.
\<close>

definition falsy :: "ustring option \<Rightarrow> bool" where
  "falsy x \<longleftrightarrow> x = None \<or> x = Some []"

text \<open>\<open>x || null\<close> and \<open>x || ''\<close> on a string that can be missing.\<close>

definition orNull :: "ustring option \<Rightarrow> ustring option" where
  "orNull x = (if falsy x then None else x)"

definition orEmpty :: "ustring option \<Rightarrow> ustring" where
  "orEmpty x = (case x of None \<Rightarrow> [] | Some s \<Rightarrow> s)"

text \<open>\<open>row[i]\<close>, \<open>undefined\<close> behind the end of the row, and \<open>row[i]?.trim()\<close>.\<close>

definition cell :: "ustring list \<Rightarrow> nat \<Rightarrow> ustring option" where
  "cell row i = (if i < length row then Some (row ! i) else None)"

definition cellTrim :: "ustring list \<Rightarrow> nat \<Rightarrow> ustring option" where
  "cellTrim row i = map_option trim (cell row i)"

text \<open>\<open>Array.prototype.findIndex\<close>; \<open>None\<close> stands for the result -1.\<close>

fun findIndex :: "('a \<Rightarrow> bool) \<Rightarrow> 'a list \<Rightarrow> nat option" where
  "findIndex P [] = None"
| "findIndex P (x # xs) = (if P x then Some 0 else map_option Suc (findIndex P xs))"

fun findColumnIndexIn :: "ustring list \<Rightarrow> ustring list \<Rightarrow> nat option" where
  "findColumnIndexIn h [] = None"
| "findColumnIndexIn h (kw # kws) =
     (case findIndex (\<lambda>col. str_includes col kw) h of
        Some idx \<Rightarrow> Some idx
      | None \<Rightarrow> findColumnIndexIn h kws)"

definition findColumnIndex :: "ustring list \<Rightarrow> ustring list \<Rightarrow> nat option" where
  "findColumnIndex hdrs keywords =
     findColumnIndexIn (map (\<lambda>s. trim (toLowerCase s)) hdrs) keywords"

text \<open>The argument is \<open>None\<close> when the caller passes \<open>undefined\<close> (a cell behind the end of a row).\<close>

definition parseRussianNumber :: "ustring option \<Rightarrow> jsnumber option" where
  "parseRussianNumber text =
     (case text of
        None \<Rightarrow> None
      | Some t \<Rightarrow>
          if t = [] \<or> trim t = [] \<or> trim t = [45] then None
          else
            (let cleaned = replaceFirst 44 46 (filter (\<lambda>c. \<not> isWhiteSpace c) (trim t));
                 num = parseFloat cleaned
             in if num = NaN then None else Some num))"

text \<open>
  \<open>extractGost\<close>, the first match of
  \<open>/(?:GOST-in-Cyrillic|GOST)\s*(?:R\s*)?[\d.\-]+(?:\s*[\-DASH]\s*\d+)?/i\<close>, where \<open>R\<close> is
  the Cyrillic letter and \<open>DASH\<close> is the en dash U+2013. Every quantifier of the pattern is
  greedy and is followed by a character that it cannot match itself, so at a given
  start the match is the one found without backtracking.
\<close>

definition GOST_CYR :: ustring where "GOST_CYR = [CY_G, CY_O, CY_S, CY_T]"
definition GOST_LAT :: ustring where "GOST_LAT = asc ''GOST''"

definition isGostChar :: "uchar \<Rightarrow> bool" where
  "isGostChar c \<longleftrightarrow> isDigit c \<or> c = 46 \<or> c = 45"

definition isDash :: "uchar \<Rightarrow> bool" where
  "isDash c \<longleftrightarrow> c = 45 \<or> c = 8211"

definition gostTail :: "ustring \<Rightarrow> ustring" where
  "gostTail r =
     (let ws1 = takeWhile isWhiteSpace r; r1 = dropWhile isWhiteSpace r in
      if r1 \<noteq> [] \<and> isDash (hd r1) then
        (let ws2 = takeWhile isWhiteSpace (tl r1);
             ds = takeWhile isDigit (dropWhile isWhiteSpace (tl r1))
         in if ds = [] then [] else ws1 @ [hd r1] @ ws2 @ ds)
      else [])"

definition gostAt :: "ustring \<Rightarrow> ustring option" where
  "gostAt s =
     (if ciPrefix GOST_CYR s \<or> ciPrefix GOST_LAT s then
        (let ws1 = takeWhile isWhiteSpace (drop 4 s);
             r1 = dropWhile isWhiteSpace (drop 4 s);
             rp = (if r1 \<noteq> [] \<and> canonicalize (hd r1) = canonicalize CY_R
                   then hd r1 # takeWhile isWhiteSpace (tl r1) else []);
             r2 = drop (length rp) r1;
             m = takeWhile isGostChar r2
         in if m = [] then None
            else Some (take 4 s @ ws1 @ rp @ m @ gostTail (dropWhile isGostChar r2)))
      else None)"

fun extractGost :: "ustring \<Rightarrow> ustring option" where
  "extractGost [] = None"
| "extractGost (c # cs) =
     (case gostAt (c # cs) of Some m \<Rightarrow> Some m | None \<Rightarrow> extractGost cs)"

definition buildSnippet ::
  "(jsnumber \<Rightarrow> ustring) \<Rightarrow> ustring \<Rightarrow> jsnumber option \<Rightarrow> ustring option \<Rightarrow> ustring" where
  "buildSnippet numStr name qty un =
     name
     @ (case qty of None \<Rightarrow> [] | Some q \<Rightarrow> asc '' | '' @ numStr q)
     @ (if falsy un then [] else 32 # orEmpty un)"

definition KW_ed_izm :: ustring where "KW_ed_izm = [cy_e, cy_d, 46, cy_i, cy_z, cy_m]"
definition KW_ed_dot :: ustring where "KW_ed_dot = [cy_e, cy_d, 46]"
definition KW_opisanie :: ustring where
  "KW_opisanie = [cy_o, cy_p, cy_i, cy_s, cy_a, cy_n, cy_i, cy_e]"
definition KW_primechanie :: ustring where
  "KW_primechanie = [cy_p, cy_r, cy_i, cy_m, cy_e, cy_ch, cy_a, cy_n, cy_i, cy_e]"

text \<open>The unit of the piece-counted schedules, \<open>sht\<close> in Cyrillic.\<close>

definition UNIT_SHT :: ustring where "UNIT_SHT = [cy_sh, cy_t]"

text \<open>
  \<open>/^[A-Za-z0-9.]+$/\<close> with the Cyrillic range U+0410 to U+044F in the class as well:
  a bare section label.
\<close>

definition isLabelChar :: "uchar \<Rightarrow> bool" where
  "isLabelChar c \<longleftrightarrow>
     isAsciiUpper c \<or> isAsciiLower c \<or> (1040 \<le> c \<and> c \<le> 1103) \<or> isDigit c \<or> c = 46"

definition isSectionLabel :: "ustring \<Rightarrow> bool" where
  "isSectionLabel s \<longleftrightarrow> s \<noteq> [] \<and> list_all isLabelChar s"

text \<open>
  The body of the loop over the rows in \<open>extractMaterialQty\<close>: the items that one
  row adds, none where the loop takes \<open>continue\<close>.
\<close>

definition materialQtyRow ::
  "(jsnumber \<Rightarrow> ustring) \<Rightarrow> nat \<Rightarrow> nat option \<Rightarrow> nat option \<Rightarrow> ustring list
     \<Rightarrow> MaterialFactItem list" where
  "materialQtyRow numStr nameIdx qtyIdx unitIdx row =
     (let rawName = cellTrim row nameIdx in
      if falsy rawName then []
      else
        (let quantity = (case qtyIdx of None \<Rightarrow> None
                         | Some i \<Rightarrow> parseRussianNumber (cell row i));
             un = (case unitIdx of None \<Rightarrow> None | Some i \<Rightarrow> orNull (cellTrim row i))
         in if quantity = None \<and> falsy un \<and> length (orEmpty rawName) < 10 \<and>
               isSectionLabel (orEmpty rawName) then []
            else if length (orEmpty rawName) < 3 then []
            else
              [\<lparr>raw_name = orEmpty rawName,
                canonical_name = rawName,
                canonical_key = Some (generateCanonicalKey (orEmpty rawName)),
                quantity = quantity,
                unit = un,
                mark = None,
                gost = extractGost (orEmpty rawName),
                description = None,
                item_note = None,
                source_snippet = Some (buildSnippet numStr (orEmpty rawName) quantity un),
                confidence = Fin (95 / 100)\<rparr>]))"

definition extractMaterialQty ::
  "(jsnumber \<Rightarrow> ustring) \<Rightarrow> 'a ParsedTable_scheme \<Rightarrow> MaterialFactItem list" where
  "extractMaterialQty numStr table =
     (let nameIdx = findColumnIndex (headers table) [KW_naimenovanie];
          qtyIdx = findColumnIndex (headers table) [KW_kolichestvo, KW_kol_vo, KW_kol];
          unitIdx = findColumnIndex (headers table) [KW_ed_izm, KW_ed_dot, KW_ed]
      in case nameIdx of
           None \<Rightarrow> []
         | Some n \<Rightarrow> concat (map (materialQtyRow numStr n qtyIdx unitIdx) (rows table)))"

definition elementSpecRow ::
  "(jsnumber \<Rightarrow> ustring) \<Rightarrow> nat option \<Rightarrow> nat option \<Rightarrow> nat option \<Rightarrow> nat option
     \<Rightarrow> ustring list \<Rightarrow> MaterialFactItem list" where
  "elementSpecRow numStr markIdx descIdx qtyIdx noteIdx row =
     (let mk = (case markIdx of None \<Rightarrow> None | Some i \<Rightarrow> orNull (cellTrim row i));
          desc = (case descIdx of None \<Rightarrow> None | Some i \<Rightarrow> cellTrim row i);
          rawName = (if \<not> falsy desc then orEmpty desc else orEmpty mk)
      in if rawName = [] \<or> length rawName < 3 then []
         else
           (let quantity = (case qtyIdx of None \<Rightarrow> None
                            | Some i \<Rightarrow> parseRussianNumber (cell row i));
                nt = (case noteIdx of None \<Rightarrow> None | Some i \<Rightarrow> orNull (cellTrim row i))
            in [\<lparr>raw_name = rawName,
                  canonical_name = Some rawName,
                  canonical_key = Some (generateCanonicalKey rawName),
                  quantity = quantity,
                  unit = Some UNIT_SHT,
                  mark = mk,
                  gost = extractGost (rawName @ [32] @ orEmpty nt),
                  description = (if nt \<noteq> Some rawName then nt else None),
                  item_note = None,
                  source_snippet = Some (buildSnippet numStr rawName quantity (Some UNIT_SHT)),
                  confidence = Fin (9 / 10)\<rparr>]))"

definition extractElementSpec ::
  "(jsnumber \<Rightarrow> ustring) \<Rightarrow> 'a ParsedTable_scheme \<Rightarrow> MaterialFactItem list" where
  "extractElementSpec numStr table =
     (let markIdx = findColumnIndex (headers table) [KW_marka];
          descIdx = findColumnIndex (headers table) [KW_opisanie, KW_naimenovanie];
          qtyIdx = findColumnIndex (headers table) [KW_kol_vo, KW_kol, KW_sht];
          noteIdx = findColumnIndex (headers table) [KW_primechanie]
      in if descIdx = None \<and> markIdx = None then []
         else concat (map (elementSpecRow numStr markIdx descIdx qtyIdx noteIdx) (rows table)))"

definition specElementsRow ::
  "(jsnumber \<Rightarrow> ustring) \<Rightarrow> nat option \<Rightarrow> nat option \<Rightarrow> nat \<Rightarrow> nat option \<Rightarrow> nat option
     \<Rightarrow> ustring list \<Rightarrow> MaterialFactItem list" where
  "specElementsRow numStr posIdx designationIdx primaryNameIdx qtyIdx noteIdx row =
     (let rawName = cellTrim row primaryNameIdx in
      if falsy rawName \<or> length (orEmpty rawName) < 3 then []
      else
        (let mk = (case posIdx of None \<Rightarrow> None | Some i \<Rightarrow> orNull (cellTrim row i));
             quantity = (case qtyIdx of None \<Rightarrow> None
                         | Some i \<Rightarrow> parseRussianNumber (cell row i));
             nt = (case noteIdx of None \<Rightarrow> None | Some i \<Rightarrow> orNull (cellTrim row i));
             designation =
               (case designationIdx of
                  None \<Rightarrow> None
                | Some i \<Rightarrow> if i \<noteq> primaryNameIdx then orNull (cellTrim row i) else None)
         in [\<lparr>raw_name = orEmpty rawName,
               canonical_name = rawName,
               canonical_key = Some (generateCanonicalKey (orEmpty rawName)),
               quantity = quantity,
               unit = Some UNIT_SHT,
               mark = mk,
               gost = extractGost
                 (orEmpty rawName @ [32] @ orEmpty designation @ [32] @ orEmpty nt),
               description = designation,
               item_note = nt,
               source_snippet =
                 Some (buildSnippet numStr (orEmpty rawName) quantity (Some UNIT_SHT)),
               confidence = Fin (9 / 10)\<rparr>]))"

definition extractSpecElements ::
  "(jsnumber \<Rightarrow> ustring) \<Rightarrow> 'a ParsedTable_scheme \<Rightarrow> MaterialFactItem list" where
  "extractSpecElements numStr table =
     (let posIdx = findColumnIndex (headers table) [KW_poz];
          designationIdx = findColumnIndex (headers table) [KW_oboznachenie];
          nameIdx = findColumnIndex (headers table) [KW_naimenovanie, KW_naznachenie];
          qtyIdx = findColumnIndex (headers table) [KW_kol_vo, KW_kol, KW_kolichestvo];
          noteIdx = findColumnIndex (headers table) [KW_primechanie];
          primaryNameIdx = (case nameIdx of Some n \<Rightarrow> Some n | None \<Rightarrow> designationIdx)
      in case primaryNameIdx of
           None \<Rightarrow> []
         | Some p \<Rightarrow>
             concat (map (specElementsRow numStr posIdx designationIdx p qtyIdx noteIdx)
               (rows table)))"

text \<open>
  The body of the loop over the tables in \<open>ruleBasedExtract\<close>: the items that one table
  adds to the results.
\<close>

definition extractFromTable ::
  "(jsnumber \<Rightarrow> ustring) \<Rightarrow> 'a ParsedTable_scheme \<Rightarrow> MaterialFactItem list" where
  "extractFromTable numStr table =
     (let category = classifyTable table in
      if \<not> isExtractableCategory category then []
      else if category = material_qty then extractMaterialQty numStr table
      else if category = element_spec then extractElementSpec numStr table
      else if category = spec_elements then extractSpecElements numStr table
      else [])"

definition ruleBasedExtract ::
  "(jsnumber \<Rightarrow> ustring) \<Rightarrow> 'a ParsedBlock_scheme \<Rightarrow> MaterialFactItem list" where
  "ruleBasedExtract numStr block = concat (map (extractFromTable numStr) (tables block))"

section \<open>extraction.ts: merge and dedup\<close>

text \<open>
  The key of an item. The merge is claimed for all items, whatever the letters of
  their names and units, so the lower-casing of the key is not the function
  \<open>toLowerCase\<close> above, which knows the case mapping of some scripts only, but a
  parameter \<open>lower\<close> that stands for \<open>String.prototype.toLowerCase\<close> of the engine, as
  \<open>numStr\<close> stands for the string form of a number.
\<close>

definition dedupKey ::
  "(ustring \<Rightarrow> ustring) \<Rightarrow> (jsnumber \<Rightarrow> ustring) \<Rightarrow> 'a MaterialFactItem_scheme \<Rightarrow> ustring" where
  "dedupKey lower numStr item =
     (let name = trim (lower (raw_name item));
          qty = (case quantity item of None \<Rightarrow> [] | Some q \<Rightarrow> numStr q);
          un = trim (lower (orEmpty (unit item)))
      in name @ [124] @ qty @ [124] @ un)"

text \<open>
  One of the two loops of \<open>mergeResults\<close>, over the state of the set \<open>seen\<close> and the
  list \<open>merged\<close>.
\<close>

fun addUnseen ::
  "('i \<Rightarrow> ustring) \<Rightarrow> 'i list \<Rightarrow> ustring set \<times> 'i list \<Rightarrow> ustring set \<times> 'i list" where
  "addUnseen key [] st = st"
| "addUnseen key (item # items) (seen, merged) =
     (if key item \<notin> seen
      then addUnseen key items (insert (key item) seen, merged @ [item])
      else addUnseen key items (seen, merged))"

definition mergeResults ::
  "(ustring \<Rightarrow> ustring) \<Rightarrow> (jsnumber \<Rightarrow> ustring) \<Rightarrow> MaterialFactItem list
     \<Rightarrow> MaterialFactItem list \<Rightarrow> MaterialFactItem list" where
  "mergeResults lower numStr ruleBased llmItems =
     snd (addUnseen (dedupKey lower numStr) llmItems
            (addUnseen (dedupKey lower numStr) ruleBased ({}, [])))"

section \<open>parser.ts: the patterns\<close>

text \<open>\<open>String.prototype.split\<close> with a one-character separator; the result is never empty.\<close>

fun splitOn :: "uchar \<Rightarrow> ustring \<Rightarrow> ustring list" where
  "splitOn sep [] = [[]]"
| "splitOn sep (c # cs) =
     (if c = sep then [] # splitOn sep cs
      else (case splitOn sep cs of l # ls \<Rightarrow> (c # l) # ls | [] \<Rightarrow> [[c]]))"

definition noLineTerminator :: "ustring \<Rightarrow> bool" where
  "noLineTerminator s \<longleftrightarrow> list_all (\<lambda>c. \<not> isLineTerminator c) s"

text \<open>
  The tail \<open>\s*(.+)$\<close> of the label patterns, matched against the rest of a line; the
  result is the capture group. The dot matches no line terminator. \<open>\s*\<close> takes all
  the white space when something follows it; on a rest of white space only it gives
  its last character back to the group.
\<close>

definition captureAfterSpace :: "ustring \<Rightarrow> ustring option" where
  "captureAfterSpace r =
     (let rest = dropWhile isWhiteSpace r in
      if rest \<noteq> [] then (if noLineTerminator rest then Some rest else None)
      else if r \<noteq> [] \<and> \<not> isLineTerminator (last r) then Some [last r]
      else None)"

definition labelMatch :: "ustring \<Rightarrow> ustring \<Rightarrow> ustring option" where
  "labelMatch label line =
     (if prefix label line then captureAfterSpace (drop (length label) line) else None)"

text \<open>
  The literal parts of the patterns: \<open>## STRANITSA \<close>, \<open>**List:**\<close>,
  \<open>**Naimenovanie lista:**\<close>, \<open>**Shtamp:**\<close>, \<open>Sgenerirovano:\<close> and \<open>[Oshibka\<close>,
  the words in Cyrillic.
\<close>

definition PAGE_PREFIX :: ustring where
  "PAGE_PREFIX = asc ''## '' @ [CY_S, CY_T, CY_R, CY_A, CY_N, CY_I, CY_TS, CY_A, 32]"

definition SHEET_LABEL :: ustring where
  "SHEET_LABEL = asc ''**'' @ [CY_L, cy_i, cy_s, cy_t] @ asc '':**''"

definition SHEET_NAME :: ustring where
  "SHEET_NAME =
     asc ''**''
     @ [CY_N, cy_a, cy_i, cy_m, cy_e, cy_n, cy_o, cy_v, cy_a, cy_n, cy_i, cy_e, 32,
        cy_l, cy_i, cy_s, cy_t, cy_a]
     @ asc '':**''"

definition STAMP_LABEL :: ustring where
  "STAMP_LABEL = asc ''**'' @ [CY_SH, cy_t, cy_a, cy_m, cy_p] @ asc '':**''"

definition GENERATED_LABEL :: ustring where
  "GENERATED_LABEL =
     [CY_S, cy_g, cy_e, cy_n, cy_e, cy_r, cy_i, cy_r, cy_o, cy_v, cy_a, cy_n, cy_o, 58]"

definition ERROR_OPEN :: ustring where
  "ERROR_OPEN = [91, CY_O, cy_sh, cy_i, cy_b, cy_k, cy_a]"

text \<open>\<open>PAGE_RE\<close>: the result is the capture group, the digits.\<close>

definition pageMatch :: "ustring \<Rightarrow> ustring option" where
  "pageMatch line =
     (let d = drop (length PAGE_PREFIX) line in
      if prefix PAGE_PREFIX line \<and> d \<noteq> [] \<and> list_all isDigit d then Some d else None)"

text \<open>\<open>BLOCK_RE\<close>: the result is the two capture groups.\<close>

definition isUidChar :: "uchar \<Rightarrow> bool" where
  "isUidChar c \<longleftrightarrow> isAsciiUpper c \<or> isDigit c"

definition uidMatch :: "ustring \<Rightarrow> bool" where
  "uidMatch u =
     (let s1 = takeWhile isUidChar u; r1 = dropWhile isUidChar u in
      s1 \<noteq> [] \<and> r1 \<noteq> [] \<and> hd r1 = 45 \<and>
      (let s2 = takeWhile isUidChar (tl r1); r2 = dropWhile isUidChar (tl r1) in
       s2 \<noteq> [] \<and> r2 \<noteq> [] \<and> hd r2 = 45 \<and> tl r2 \<noteq> [] \<and> list_all isUidChar (tl r2)))"

definition blockMatch :: "ustring \<Rightarrow> (BlockType \<times> ustring) option" where
  "blockMatch line =
     (if prefix (asc ''### BLOCK ['') line then
        (let r = drop 11 line;
             ty = (if prefix (asc ''TEXT'') r then Some (TEXT, drop 4 r)
                   else if prefix (asc ''IMAGE'') r then Some (IMAGE, drop 5 r)
                   else None)
         in case ty of
              None \<Rightarrow> None
            | Some (t, r1) \<Rightarrow>
                if prefix (asc '']:'') r1 then
                  (let u = dropWhile isWhiteSpace (drop 2 r1) in
                   if uidMatch u then Some (t, u) else None)
                else None)
      else None)"

text \<open>\<open>TABLE_ROW_RE.test\<close> and \<open>TABLE_SEPARATOR_RE.test\<close>.\<close>

definition isTableRow :: "ustring \<Rightarrow> bool" where
  "isTableRow l \<longleftrightarrow>
     l \<noteq> [] \<and> hd l = 124 \<and> 2 \<le> length (tl l) \<and> last l = 124 \<and>
     noLineTerminator (butlast (tl l))"

definition isSepChar :: "uchar \<Rightarrow> bool" where
  "isSepChar c \<longleftrightarrow> isWhiteSpace c \<or> c = 45 \<or> c = 58 \<or> c = 124"

definition isTableSeparator :: "ustring \<Rightarrow> bool" where
  "isTableSeparator l \<longleftrightarrow>
     l \<noteq> [] \<and> hd l = 124 \<and> 2 \<le> length (tl l) \<and> last l = 124 \<and>
     list_all isSepChar (butlast (tl l))"

text \<open>
  \<open>ERROR_RE\<close>, searched anywhere in a string: the result is the first match, from
  the opening bracket to the first closing bracket behind it.
\<close>

fun errorMatch :: "ustring \<Rightarrow> ustring option" where
  "errorMatch [] = None"
| "errorMatch (c # cs) =
     (if prefix ERROR_OPEN (c # cs) \<and>
         dropWhile (\<lambda>x. x \<noteq> 93) (drop (length ERROR_OPEN) (c # cs)) \<noteq> []
      then Some (ERROR_OPEN
                 @ takeWhile (\<lambda>x. x \<noteq> 93) (drop (length ERROR_OPEN) (c # cs)) @ [93])
      else errorMatch cs)"

text \<open>\<open>SECTION_RE\<close>: four to six hashes, white space, and the capture group.\<close>

definition sectionMatch :: "ustring \<Rightarrow> ustring option" where
  "sectionMatch line =
     (let h = takeWhile (\<lambda>c. c = 35) line; r = dropWhile (\<lambda>c. c = 35) line in
      if 4 \<le> length h \<and> length h \<le> 6 \<and> r \<noteq> [] \<and> isWhiteSpace (hd r)
      then captureAfterSpace (tl r) else None)"

text \<open>
  The pattern of the document code in the title: digits, a slash, digits, a dash,
  letters, a dash, letters and digits; the first match.
\<close>

definition isCodeLetter :: "uchar \<Rightarrow> bool" where
  "isCodeLetter c \<longleftrightarrow> (1040 \<le> c \<and> c \<le> 1103) \<or> isAsciiUpper c \<or> isAsciiLower c"

definition docCodeAt :: "ustring \<Rightarrow> ustring option" where
  "docCodeAt s =
     (let d1 = takeWhile isDigit s; r1 = dropWhile isDigit s in
      if d1 = [] \<or> r1 = [] \<or> hd r1 \<noteq> 47 then None
      else
        (let d2 = takeWhile isDigit (tl r1); r2 = dropWhile isDigit (tl r1) in
         if d2 = [] \<or> r2 = [] \<or> hd r2 \<noteq> 45 then None
         else
           (let w = takeWhile isCodeLetter (tl r2); r3 = dropWhile isCodeLetter (tl r2) in
            if w = [] \<or> r3 = [] \<or> hd r3 \<noteq> 45 then None
            else
              (let a = takeWhile (\<lambda>c. isCodeLetter c \<or> isDigit c) (tl r3) in
               if a = [] then None
               else Some (d1 @ [47] @ d2 @ [45] @ w @ [45] @ a)))))"

fun docCodeMatch :: "ustring \<Rightarrow> ustring option" where
  "docCodeMatch [] = None"
| "docCodeMatch (c # cs) =
     (case docCodeAt (c # cs) of Some m \<Rightarrow> Some m | None \<Rightarrow> docCodeMatch cs)"

section \<open>parser.ts: tables and blocks\<close>

definition stripLeadingBar :: "ustring \<Rightarrow> ustring" where
  "stripLeadingBar s = (if s \<noteq> [] \<and> hd s = 124 then tl s else s)"

definition stripTrailingBar :: "ustring \<Rightarrow> ustring" where
  "stripTrailingBar s = (if s \<noteq> [] \<and> last s = 124 then butlast s else s)"

definition splitTableRow :: "ustring \<Rightarrow> ustring list" where
  "splitTableRow line = map trim (splitOn 124 (stripTrailingBar (stripLeadingBar line)))"

definition parseMarkdownTable :: "ustring list \<Rightarrow> ustring option \<Rightarrow> ParsedTable option" where
  "parseMarkdownTable tableLines sectionCtx =
     (if length tableLines < 2 then None
      else
        (let hs = splitTableRow (hd tableLines);
             dataStart = (if isTableSeparator (tableLines ! 1) then 2 else 1 :: nat);
             rs = map splitTableRow
                    (filter (\<lambda>l. \<not> isTableSeparator l) (drop dataStart tableLines))
         in Some \<lparr>headers = hs, rows = rs, sectionContext = sectionCtx\<rparr>))"

text \<open>
  The loop of \<open>parseTables\<close> from a position on: the argument is the section seen
  last and the lines from the position to the end.
\<close>

function parseTablesFrom :: "ustring option \<Rightarrow> ustring list \<Rightarrow> ParsedTable list" where
  "parseTablesFrom currentSection [] = []"
| "parseTablesFrom currentSection (l # ls) =
     (case sectionMatch l of
        Some g \<Rightarrow> parseTablesFrom (Some (trim g)) ls
      | None \<Rightarrow>
          if \<not> isTableRow l then parseTablesFrom currentSection ls
          else if length (takeWhile isTableRow (l # ls)) < 2
          then parseTablesFrom currentSection (dropWhile isTableRow (l # ls))
          else
            (case parseMarkdownTable (takeWhile isTableRow (l # ls)) currentSection of
               Some t \<Rightarrow> [t]
             | None \<Rightarrow> [])
            @ parseTablesFrom currentSection (dropWhile isTableRow (l # ls)))"
  by pat_completeness auto
termination
proof (relation "measure (\<lambda>(s, ls). length ls)")
  show "wf (measure (\<lambda>(s, ls). length ls))" by simp
next
  fix currentSection :: "ustring option" and l ls g
  show "((Some (trim g), ls), (currentSection, l # ls)) \<in> measure (\<lambda>(s, ls). length ls)"
    by simp
next
  fix currentSection :: "ustring option" and l ls
  show "((currentSection, ls), (currentSection, l # ls)) \<in> measure (\<lambda>(s, ls). length ls)"
    by simp
next
  fix currentSection :: "ustring option" and l ls
  assume "\<not> \<not> isTableRow l"
  then have "dropWhile isTableRow (l # ls) = dropWhile isTableRow ls" by simp
  moreover have "length (dropWhile isTableRow ls) \<le> length ls"
    by (rule length_dropWhile_le)
  ultimately show "((currentSection, dropWhile isTableRow (l # ls)), (currentSection, l # ls))
      \<in> measure (\<lambda>(s, ls). length ls)"
    by simp
next
  fix currentSection :: "ustring option" and l ls
  assume "\<not> \<not> isTableRow l"
  then have "dropWhile isTableRow (l # ls) = dropWhile isTableRow ls" by simp
  moreover have "length (dropWhile isTableRow ls) \<le> length ls"
    by (rule length_dropWhile_le)
  ultimately show "((currentSection, dropWhile isTableRow (l # ls)), (currentSection, l # ls))
      \<in> measure (\<lambda>(s, ls). length ls)"
    by simp
qed

definition parseTables :: "ustring list \<Rightarrow> ustring option \<Rightarrow> ParsedTable list" where
  "parseTables lines defaultSection = parseTablesFrom defaultSection lines"

text \<open>The first line that is a section heading with a title that is not empty.\<close>

fun firstSectionTitle :: "ustring list \<Rightarrow> ustring option" where
  "firstSectionTitle [] = None"
| "firstSectionTitle (l # ls) =
     (case sectionMatch l of
        Some g \<Rightarrow> if 0 < length (trim g) then Some (trim g) else firstSectionTitle ls
      | None \<Rightarrow> firstSectionTitle ls)"

definition buildBlock :: "ustring \<Rightarrow> BlockType \<Rightarrow> ustring list \<Rightarrow> ParsedBlock" where
  "buildBlock u ty contentLines =
     (let cont = trim (join [10] contentLines);
          hasErr = (errorMatch cont \<noteq> None);
          errText = (if hasErr then errorMatch cont else None);
          secTitle = firstSectionTitle contentLines;
          hasTab = list_ex isTableRow contentLines;
          tabs = (if hasTab then parseTables contentLines secTitle else [])
      in \<lparr>uid = u, type = ty, content = cont, hasTable = hasTab, hasError = hasErr,
          errorText = errText, sectionTitle = secTitle, tables = tabs\<rparr>)"

section \<open>parser.ts: the scan over the lines\<close>

text \<open>
  The state of the loop of \<open>parseDocument\<close>. In the source the current page is the
  object pushed last onto \<open>pages\<close>, changed in place through \<open>currentPage\<close>; here the
  array \<open>pages\<close> is the list \<open>donePages\<close> followed by the current page, when there is
  one. The field \<open>startIdx\<close> of the open block is never read and is left out.
\<close>

record OpenBlock =
  ob_type :: BlockType
  ob_uid :: ustring
  ob_lines :: "ustring list"

record ParserState =
  donePages :: "ParsedPage list"
  currentPage :: "ParsedPage option"
  currentBlock :: "OpenBlock option"
  inPageMetadata :: bool

definition initialState :: ParserState where
  "initialState =
     \<lparr>donePages = [], currentPage = None, currentBlock = None, inPageMetadata = False\<rparr>"

definition finalizeBlock :: "ParserState \<Rightarrow> ParserState" where
  "finalizeBlock st =
     (case currentBlock st of
        None \<Rightarrow> st
      | Some b \<Rightarrow>
          (case currentPage st of
             None \<Rightarrow> st
           | Some p \<Rightarrow>
               st\<lparr>currentPage :=
                    Some (p\<lparr>blocks :=
                       blocks p @ [buildBlock (ob_uid b) (ob_type b) (ob_lines b)]\<rparr>),
                  currentBlock := None\<rparr>))"

definition finalizePage :: "ParserState \<Rightarrow> ParserState" where
  "finalizePage st =
     (let st1 = finalizeBlock st in
      st1\<lparr>donePages :=
            donePages st1 @ (case currentPage st1 of None \<Rightarrow> [] | Some p \<Rightarrow> [p]),
          currentPage := None,
          inPageMetadata := False\<rparr>)"

text \<open>The part of the loop body from the check for a block header on.\<close>

definition blockStep :: "ParserState \<Rightarrow> ustring \<Rightarrow> ParserState" where
  "blockStep st line =
     (case blockMatch line of
        Some (ty, u) \<Rightarrow>
          (let st1 = (finalizeBlock st)\<lparr>inPageMetadata := False\<rparr>;
               st2 = (if currentPage st1 = None
                      then st1\<lparr>currentPage :=
                             Some \<lparr>pageNo = 1, sheetLabel = None, sheetName = None,
                                   blocks = []\<rparr>\<rparr>
                      else st1)
           in st2\<lparr>currentBlock := Some \<lparr>ob_type = ty, ob_uid = u, ob_lines = []\<rparr>\<rparr>)
      | None \<Rightarrow>
          (case currentBlock st of
             Some b \<Rightarrow> st\<lparr>currentBlock := Some (b\<lparr>ob_lines := ob_lines b @ [line]\<rparr>)\<rparr>
           | None \<Rightarrow> st))"

text \<open>The part of the loop body for the metadata of a page.\<close>

definition metadataStep :: "ParserState \<Rightarrow> ustring \<Rightarrow> ParserState" where
  "metadataStep st line =
     (case currentPage st of
        Some p \<Rightarrow>
          if inPageMetadata st then
            (case labelMatch SHEET_LABEL line of
               Some g \<Rightarrow> st\<lparr>currentPage := Some (p\<lparr>sheetLabel := Some (trim g)\<rparr>)\<rparr>
             | None \<Rightarrow>
                 (case labelMatch SHEET_NAME line of
                    Some g \<Rightarrow> st\<lparr>currentPage := Some (p\<lparr>sheetName := Some (trim g)\<rparr>)\<rparr>
                  | None \<Rightarrow> if trim line = [] then st else blockStep st line))
          else blockStep st line
      | None \<Rightarrow> blockStep st line)"

text \<open>The body of the loop over the lines.\<close>

definition lineStep :: "ParserState \<Rightarrow> ustring \<Rightarrow> ParserState" where
  "lineStep st line =
     (case pageMatch line of
        Some d \<Rightarrow>
          (finalizePage st)\<lparr>currentPage :=
              Some \<lparr>pageNo = digitsVal d, sheetLabel = None, sheetName = None, blocks = []\<rparr>,
            inPageMetadata := True\<rparr>
      | None \<Rightarrow> metadataStep st line)"

definition fallbackPage :: "ustring \<Rightarrow> ParsedPage" where
  "fallbackPage mdText =
     \<lparr>pageNo = 1, sheetLabel = None, sheetName = None,
      blocks =
        [\<lparr>uid = asc ''FALLBACK-0000-000'', type = TEXT, content = mdText,
          hasTable = isTableRow mdText, hasError = (errorMatch mdText \<noteq> None),
          errorText = None, sectionTitle = None, tables = []\<rparr>]\<rparr>"

text \<open>The label lines of the header: each later match replaces an earlier one.\<close>

definition lastLabel :: "ustring \<Rightarrow> ustring list \<Rightarrow> ustring option" where
  "lastLabel label ls =
     foldl (\<lambda>acc l. case labelMatch label l of Some g \<Rightarrow> Some (trim g) | None \<Rightarrow> acc)
       None ls"

text \<open>
  The loop over the lines and the last \<open>finalizePage\<close>: the array \<open>pages\<close> before
  the fallback.
\<close>

definition scanLines :: "ustring list \<Rightarrow> ParsedPage list" where
  "scanLines lines = donePages (finalizePage (foldl lineStep initialState lines))"

definition parseDocument :: "ustring \<Rightarrow> ParsedDocument" where
  "parseDocument mdText =
     (let lines = splitOn 10 mdText;
          hasTitle = (lines \<noteq> [] \<and> prefix (asc ''# '') (hd lines));
          ttl = (if hasTitle then drop 2 (hd lines) else []);
          code = (if hasTitle then docCodeMatch ttl else None);
          metaLines = take 9 (drop 1 lines);
          scanned = scanLines lines;
          pgs = (if length scanned = 0 then [fallbackPage mdText] else scanned)
      in \<lparr>title = ttl,
          generated = lastLabel GENERATED_LABEL metaLines,
          stampText = lastLabel STAMP_LABEL metaLines,
          docCode = code,
          pages = pgs,
          totalBlocks = sum_list (map (\<lambda>p. length (blocks p)) pgs),
          errorBlocks = sum_list (map (\<lambda>p. length (filter hasError (blocks p))) pgs)\<rparr>)"

section \<open>useExtraction.ts: which blocks go where\<close>

text \<open>
  The test of the pattern
  \<open>/\d+[,.]?\d*\s*(sht|m2|m3|m\.p\.|kg|t|l|kompl)/i\<close> (the units in Cyrillic) on the
  content of a block. At a given start each quantifier takes all it can: what follows
  a run of digits, of white space or the optional separator cannot be matched by a
  shorter run.
\<close>

definition QUANTITY_UNITS :: "ustring list" where
  "QUANTITY_UNITS =
     [[cy_sh, cy_t], [cy_m, 50], [cy_m, 51], [cy_m, 46, cy_p, 46], [cy_k, cy_g],
      [cy_t], [cy_l], [cy_k, cy_o, cy_m, cy_p, cy_l]]"

definition quantityPatternAt :: "ustring \<Rightarrow> bool" where
  "quantityPatternAt s =
     (let r1 = dropWhile isDigit s;
          r2 = (if r1 \<noteq> [] \<and> (hd r1 = 44 \<or> hd r1 = 46) then tl r1 else r1);
          r4 = dropWhile isWhiteSpace (dropWhile isDigit r2)
      in takeWhile isDigit s \<noteq> [] \<and> list_ex (\<lambda>u. ciPrefix u r4) QUANTITY_UNITS)"

fun hasQuantityPattern :: "ustring \<Rightarrow> bool" where
  "hasQuantityPattern [] = False"
| "hasQuantityPattern (c # cs) = (quantityPatternAt (c # cs) \<or> hasQuantityPattern cs)"

record BlockForExtraction =
  bfe_block :: ParsedBlock
  bfe_pageNo :: nat
  blockDbId :: ustring
  bfe_sectionContext :: "ustring option"

text \<open>
  The two collections that the loop over the blocks fills. \<open>ruleBasedResults\<close> is a
  \<open>Map\<close>: \<open>set\<close> replaces the value of a key that is there and adds a new key at
  the end.
\<close>

record RoutingState =
  ruleBasedResults :: "(ustring \<times> MaterialFactItem list) list"
  blocksNeedingLlm :: "BlockForExtraction list"

fun mapSet :: "'k \<Rightarrow> 'v \<Rightarrow> ('k \<times> 'v) list \<Rightarrow> ('k \<times> 'v) list" where
  "mapSet k v [] = [(k, v)]"
| "mapSet k v ((k', v') # kvs) = (if k' = k then (k, v) # kvs else (k', v') # mapSet k v kvs)"

definition needsLlmCategory :: "TableCategory \<Rightarrow> bool" where
  "needsLlmCategory cat \<longleftrightarrow>
     isExtractableCategory cat \<and> cat \<noteq> material_qty \<and> cat \<noteq> element_spec \<and>
     cat \<noteq> spec_elements"

text \<open>
  The body of the loop over the blocks of a page in \<open>runExtraction\<close>.
  \<open>blockUidToDbId\<close> is the map from the identifiers of the blocks to their database
  ids, read from the database.
\<close>

definition routeBlock ::
  "(jsnumber \<Rightarrow> ustring) \<Rightarrow> (ustring \<Rightarrow> ustring option) \<Rightarrow> nat \<Rightarrow> RoutingState \<Rightarrow> ParsedBlock
     \<Rightarrow> RoutingState" where
  "routeBlock numStr blockUidToDbId pno st blk =
     (if hasError blk \<or> type blk \<noteq> TEXT then st
      else if falsy (blockUidToDbId (uid blk)) then st
      else
        (let dbId = orEmpty (blockUidToDbId (uid blk));
             forLlm = \<lparr>bfe_block = blk, bfe_pageNo = pno, blockDbId = dbId,
                       bfe_sectionContext = sectionTitle blk\<rparr>
         in if hasTable blk then
              (let ruleItems = ruleBasedExtract numStr blk;
                   st1 = (if 0 < length ruleItems
                          then st\<lparr>ruleBasedResults :=
                                 mapSet dbId ruleItems (ruleBasedResults st)\<rparr>
                          else st);
                   hasComplexTables =
                     list_ex (\<lambda>t. needsLlmCategory (classifyTable t)) (tables blk);
                   hasUnknownTables = list_ex (\<lambda>t. classifyTable t = unknown) (tables blk)
               in if hasComplexTables \<or> hasUnknownTables \<or> length ruleItems = 0
                  then st1\<lparr>blocksNeedingLlm := blocksNeedingLlm st1 @ [forLlm]\<rparr>
                  else st1)
            else if hasQuantityPattern (content blk)
            then st\<lparr>blocksNeedingLlm := blocksNeedingLlm st @ [forLlm]\<rparr>
            else st))"

definition routePage ::
  "(jsnumber \<Rightarrow> ustring) \<Rightarrow> (ustring \<Rightarrow> ustring option) \<Rightarrow> RoutingState \<Rightarrow> ParsedPage
     \<Rightarrow> RoutingState" where
  "routePage numStr blockUidToDbId st page =
     foldl (routeBlock numStr blockUidToDbId (pageNo page)) st (blocks page)"

definition selectBlocks ::
  "(jsnumber \<Rightarrow> ustring) \<Rightarrow> (ustring \<Rightarrow> ustring option) \<Rightarrow> ParsedDocument \<Rightarrow> RoutingState" where
  "selectBlocks numStr blockUidToDbId parsed =
     foldl (routePage numStr blockUidToDbId)
       \<lparr>ruleBasedResults = [], blocksNeedingLlm = []\<rparr> (pages parsed)"

section \<open>Constants of the claims and examples\<close>

text \<open>
  The name used in the examples: \<open>Kirpich keramicheskij (ili analog)\<close> in Cyrillic,
  a brick with the noise phrase behind it.
\<close>

definition NAME_BRICK_ANALOG :: ustring where
  "NAME_BRICK_ANALOG =
     [CY_K, cy_i, cy_r, cy_p, cy_i, cy_ch, 32,
      cy_k, cy_e, cy_r, cy_a, cy_m, cy_i, cy_ch, cy_e, cy_s, cy_k, cy_i, cy_j, 32,
      40, cy_i, cy_l, cy_i, 32, cy_a, cy_n, cy_a, cy_l, cy_o, cy_g, 41]"

text \<open>The keywords that the rules of the classifier look for.\<close>

definition RECOGNIZED_KEYWORDS :: "ustring list" where
  "RECOGNIZED_KEYWORDS =
     [KW_izm, KW_podp, KW_data, KW_no_pom, KW_nomer_pom, KW_ploshchad, KW_naimenovanie,
      KW_kolichestvo, KW_kol_vo, KW_kol, KW_ed, KW_poz, KW_oboznachenie, KW_marka, KW_sht,
      KW_tip_pola, KW_pol, KW_dannye_elementov, KW_tip_pokrytiya, KW_pokryt,
      KW_naznachenie]"

text \<open>The header cells of the examples, in Cyrillic in the documents.\<close>

definition H_Izm :: ustring where "H_Izm = [CY_I, cy_z, cy_m, 46]"
definition H_Podpis :: ustring where
  "H_Podpis = [CY_P, cy_o, cy_d, cy_p, cy_i, cy_s, cy_soft]"
definition H_Data :: ustring where "H_Data = [CY_D, cy_a, cy_t, cy_a]"
definition H_Naimenovanie :: ustring where
  "H_Naimenovanie =
     [CY_N, cy_a, cy_i, cy_m, cy_e, cy_n, cy_o, cy_v, cy_a, cy_n, cy_i, cy_e]"
definition H_Kol_vo :: ustring where "H_Kol_vo = [CY_K, cy_o, cy_l, 45, cy_v, cy_o]"
definition H_Kolichestvo :: ustring where
  "H_Kolichestvo = [CY_K, cy_o, cy_l, cy_i, cy_ch, cy_e, cy_s, cy_t, cy_v, cy_o]"
definition H_Ed_izm :: ustring where "H_Ed_izm = [CY_E, cy_d, 46, cy_i, cy_z, cy_m, 46]"
definition H_Poz :: ustring where "H_Poz = [CY_P, cy_o, cy_z, 46]"
definition H_Oboznachenie :: ustring where
  "H_Oboznachenie = [CY_O, cy_b, cy_o, cy_z, cy_n, cy_a, cy_ch, cy_e, cy_n, cy_i, cy_e]"
definition H_Marka :: ustring where "H_Marka = [CY_M, cy_a, cy_r, cy_k, cy_a]"
definition H_Tsvet :: ustring where "H_Tsvet = [CY_TS, cy_v, cy_e, cy_t]"
definition H_Razmer :: ustring where "H_Razmer = [CY_R, cy_a, cy_z, cy_m, cy_e, cy_r]"


text \<open>
  The deduplicated list of the spec: of the items with one key the first is kept, in
  the order of the list.
\<close>

fun firstByKey :: "('i \<Rightarrow> ustring) \<Rightarrow> 'i list \<Rightarrow> 'i list" where
  "firstByKey key [] = []"
| "firstByKey key (x # xs) = x # firstByKey key (filter (\<lambda>y. key y \<noteq> key x) xs)"

definition NAME_BRICK :: ustring where
  "NAME_BRICK = [CY_K, cy_i, cy_r, cy_p, cy_i, cy_ch]"

text \<open>
  A rule item, and an LLM item with the same name in small letters and with a space
  behind it, the same quantity, the same unit in capitals, and another canonical name.
\<close>

definition ITEM_RULE_BRICK :: MaterialFactItem where
  "ITEM_RULE_BRICK =
     \<lparr>raw_name = NAME_BRICK, canonical_name = Some NAME_BRICK, canonical_key = None,
      quantity = Some (Fin 100), unit = Some [cy_sh, cy_t], mark = None, gost = None,
      description = None, item_note = None, source_snippet = None,
      confidence = Fin (95 / 100)\<rparr>"

definition ITEM_LLM_BRICK :: MaterialFactItem where
  "ITEM_LLM_BRICK =
     \<lparr>raw_name = [cy_k, cy_i, cy_r, cy_p, cy_i, cy_ch, 32],
      canonical_name = Some (asc ''brick''), canonical_key = None,
      quantity = Some (Fin 100), unit = Some [CY_SH, CY_T], mark = None, gost = None,
      description = None, item_note = None, source_snippet = Some NAME_BRICK,
      confidence = Fin (8 / 10)\<rparr>"


text \<open>
  The cleaned form of a cell in \<open>parseRussianNumber\<close>, and the strings that are a
  numeral as a whole: a decimal literal with nothing behind it.
\<close>

definition cleanedForm :: "ustring \<Rightarrow> ustring" where
  "cleanedForm t = replaceFirst 44 46 (filter (\<lambda>c. \<not> isWhiteSpace c) (trim t))"

definition isNumeral :: "ustring \<Rightarrow> bool" where
  "isNumeral s \<longleftrightarrow> map_option fst (strDecimalLiteral s) = Some s"

definition TEXT_1692_9 :: ustring where "TEXT_1692_9 = asc ''1 692,9''"
definition TEXT_202_6 :: ustring where "TEXT_202_6 = asc ''202,6''"
definition TEXT_12_SHT :: ustring where "TEXT_12_SHT = asc ''12 '' @ [cy_sh, cy_t]"


text \<open>
  The cell of a row in the unit column of a table, as \<open>extractMaterialQty\<close> reads it:
  \<open>null\<close> when the table has no unit column, when the row has no such cell and
  when the trimmed cell is empty.
\<close>

definition unitColumnCell :: "ustring list \<Rightarrow> ustring list \<Rightarrow> ustring option" where
  "unitColumnCell hdrs row =
     (case findColumnIndex hdrs [KW_ed_izm, KW_ed_dot, KW_ed] of
        None \<Rightarrow> None
      | Some i \<Rightarrow> orNull (cellTrim row i))"

text \<open>
  The tables of the examples: a quantity table with one brick row, and a schedule of
  marks whose row has the unit \<open>kompl\<close> in a unit column.
\<close>

definition NAME_BRICK_CERAMIC :: ustring where
  "NAME_BRICK_CERAMIC =
     [CY_K, cy_i, cy_r, cy_p, cy_i, cy_ch, 32,
      cy_k, cy_e, cy_r, cy_a, cy_m, cy_i, cy_ch, cy_e, cy_s, cy_k, cy_i, cy_j]"

definition TABLE_BRICK :: ParsedTable where
  "TABLE_BRICK =
     \<lparr>headers = [H_Naimenovanie, H_Kolichestvo, H_Ed_izm],
      rows = [[NAME_BRICK_CERAMIC, TEXT_1692_9, UNIT_SHT]],
      sectionContext = None\<rparr>"

definition MARK_VR1 :: ustring where "MARK_VR1 = [CY_V, CY_R, 45, 49]"

definition TABLE_MARKS :: ParsedTable where
  "TABLE_MARKS =
     \<lparr>headers = [H_Marka, H_Kol_vo, H_Ed_izm],
      rows = [[MARK_VR1, asc ''4'', [cy_k, cy_o, cy_m, cy_p, cy_l]]],
      sectionContext = None\<rparr>"

definition TABLE_CHANGES :: ParsedTable where
  "TABLE_CHANGES =
     \<lparr>headers = [H_Izm, H_Podpis, H_Data],
      rows = [[asc ''1'', NAME_BRICK_CERAMIC, asc ''2024'']],
      sectionContext = None\<rparr>"

definition ITEM_BRICK :: "(jsnumber \<Rightarrow> ustring) \<Rightarrow> MaterialFactItem" where
  "ITEM_BRICK numStr =
     \<lparr>raw_name = NAME_BRICK_CERAMIC,
      canonical_name = Some NAME_BRICK_CERAMIC,
      canonical_key = Some (asc ''kirpich_keramicheskiy''),
      quantity = Some (Fin (16929 / 10)),
      unit = Some UNIT_SHT,
      mark = None,
      gost = None,
      description = None,
      item_note = None,
      source_snippet =
        Some (NAME_BRICK_CERAMIC @ asc '' | '' @ numStr (Fin (16929 / 10)) @ [32] @ UNIT_SHT),
      confidence = Fin (95 / 100)\<rparr>"

definition ITEM_VR1 :: "(jsnumber \<Rightarrow> ustring) \<Rightarrow> MaterialFactItem" where
  "ITEM_VR1 numStr =
     \<lparr>raw_name = MARK_VR1,
      canonical_name = Some MARK_VR1,
      canonical_key = Some (asc ''vr_1''),
      quantity = Some (Fin 4),
      unit = Some UNIT_SHT,
      mark = Some MARK_VR1,
      gost = None,
      description = None,
      item_note = None,
      source_snippet = Some (MARK_VR1 @ asc '' | '' @ numStr (Fin 4) @ [32] @ UNIT_SHT),
      confidence = Fin (9 / 10)\<rparr>"


text \<open>
  The document of the end-to-end scenario: a page header, the header of a TEXT block,
  and the two rows of the table.
\<close>

definition ROW_HEADER :: ustring where
  "ROW_HEADER =
     asc ''| '' @ H_Naimenovanie @ asc '' | '' @ H_Kolichestvo @ asc '' | '' @ H_Ed_izm
     @ asc '' |''"

definition ROW_DATA :: ustring where
  "ROW_DATA =
     asc ''| '' @ NAME_BRICK_CERAMIC @ asc '' | '' @ TEXT_1692_9 @ asc '' | '' @ UNIT_SHT
     @ asc '' |''"

definition LINE_PAGE_1 :: ustring where
  "LINE_PAGE_1 = PAGE_PREFIX @ asc ''1''"

definition LINE_BLOCK_TEXT :: ustring where
  "LINE_BLOCK_TEXT = asc ''### BLOCK [TEXT]: AAA-BBB-CCC''"

definition DOC_BRICK :: ustring where
  "DOC_BRICK = LINE_PAGE_1 @ [10] @ LINE_BLOCK_TEXT @ [10] @ ROW_HEADER @ [10] @ ROW_DATA"

definition BLOCK_BRICK :: ParsedBlock where
  "BLOCK_BRICK =
     \<lparr>uid = asc ''AAA-BBB-CCC'', type = TEXT, content = ROW_HEADER @ [10] @ ROW_DATA,
      hasTable = True, hasError = False, errorText = None, sectionTitle = None,
      tables = [TABLE_BRICK]\<rparr>"


text \<open>
  The blocks of the example of the excluded blocks: the block of the scenario marked
  as an error block, and an IMAGE block whose content is \<open>5 sht\<close>.
\<close>

definition BLOCK_BRICK_ERROR :: ParsedBlock where
  "BLOCK_BRICK_ERROR = BLOCK_BRICK\<lparr>hasError := True\<rparr>"

definition BLOCK_IMAGE_QTY :: ParsedBlock where
  "BLOCK_IMAGE_QTY =
     \<lparr>uid = asc ''III-MMM-GGG'', type = IMAGE, content = asc ''5 '' @ UNIT_SHT,
      hasTable = False, hasError = False, errorText = None, sectionTitle = None,
      tables = []\<rparr>"

definition DOC_EXCLUDED :: ParsedDocument where
  "DOC_EXCLUDED =
     \<lparr>title = [], generated = None, stampText = None, docCode = None,
      pages = [\<lparr>pageNo = 1, sheetLabel = None, sheetName = None,
                blocks = [BLOCK_BRICK_ERROR, BLOCK_IMAGE_QTY]\<rparr>],
      totalBlocks = 2, errorBlocks = 1\<rparr>"


text \<open>
  The invariant of the loop over the blocks, for the blocks \<open>B\<close> of the document.
\<close>

definition routedOk ::
  "(jsnumber \<Rightarrow> ustring) \<Rightarrow> (ustring \<Rightarrow> ustring option) \<Rightarrow> ParsedBlock set \<Rightarrow> RoutingState
     \<Rightarrow> bool" where
  "routedOk numStr db B st \<longleftrightarrow>
     (\<forall>x \<in> set (blocksNeedingLlm st).
        bfe_block x \<in> B \<and> \<not> hasError (bfe_block x) \<and> type (bfe_block x) = TEXT) \<and>
     (\<forall>(k, items) \<in> set (ruleBasedResults st).
        \<exists>b \<in> B. \<not> hasError b \<and> type b = TEXT \<and> hasTable b \<and> db (uid b) = Some k \<and>
          items = ruleBasedExtract numStr b)"





text \<open>A line of the text is a page marker or a block marker.\<close>

definition isMarker :: "ustring \<Rightarrow> bool" where
  "isMarker l \<longleftrightarrow> pageMatch l \<noteq> None \<or> blockMatch l \<noteq> None"




text \<open>
  A bracketed error marker: \<open>[Oshibka\<close> (in Cyrillic), any characters but a closing
  bracket, and the closing bracket.
\<close>

definition isErrorMarker :: "ustring \<Rightarrow> bool" where
  "isErrorMarker m \<longleftrightarrow>
     prefix ERROR_OPEN m \<and> length ERROR_OPEN < length m \<and> last m = 93 \<and>
     93 \<notin> set (butlast (drop (length ERROR_OPEN) m))"

text \<open>A line of a text: a part between two line feeds, or between one and an end.\<close>

definition lineOf :: "ustring \<Rightarrow> ustring \<Rightarrow> bool" where
  "lineOf l s \<longleftrightarrow>
     (\<exists>p q. s = p @ l @ q \<and> 10 \<notin> set l \<and> (p = [] \<or> last p = 10) \<and> (q = [] \<or> hd q = 10))"

text \<open>What holds of the flags of every block that the parser makes.\<close>

definition blockOk :: "ParsedBlock \<Rightarrow> bool" where
  "blockOk b \<longleftrightarrow>
     (tables b \<noteq> [] \<longrightarrow> hasTable b) \<and>
     (hasTable b \<longrightarrow> list_ex isTableRow (splitOn 10 (content b))) \<and>
     hasError b = (errorMatch (content b) \<noteq> None) \<and>
     (hasError b \<longrightarrow> (\<exists>m. isErrorMarker m \<and> sublist m (content b)))"

definition stateOk :: "ParserState \<Rightarrow> bool" where
  "stateOk st \<longleftrightarrow>
     (\<forall>p \<in> set (donePages st). \<forall>b \<in> set (blocks p). blockOk b) \<and>
     (\<forall>p. currentPage st = Some p \<longrightarrow> (\<forall>b \<in> set (blocks p). blockOk b)) \<and>
     (\<forall>ob. currentBlock st = Some ob \<longrightarrow> (\<forall>l \<in> set (ob_lines ob). 10 \<notin> set l))"

text \<open>
  Two documents with a table row that does not set \<open>hasTable\<close>: a block whose only
  line is a row behind a space, and a text without markers whose second line is a row.
\<close>

definition DOC_INDENTED_ROW :: ustring where
  "DOC_INDENTED_ROW = asc ''### BLOCK [TEXT]: A-B-C'' @ [10] @ asc '' |a|''"

definition DOC_FALLBACK_ROW :: ustring where
  "DOC_FALLBACK_ROW = asc ''x'' @ [10] @ asc ''|a|''"

text \<open>A block with an error marker, \<open>[Oshibka OCR]\<close>.\<close>

definition DOC_ERROR :: ustring where
  "DOC_ERROR = LINE_BLOCK_TEXT @ [10] @ ERROR_OPEN @ asc '' OCR]''"

definition BLOCK_ERROR :: ParsedBlock where
  "BLOCK_ERROR =
     \<lparr>uid = asc ''AAA-BBB-CCC'', type = TEXT, content = ERROR_OPEN @ asc '' OCR]'',
      hasTable = False, hasError = True, errorText = Some (ERROR_OPEN @ asc '' OCR]''),
      sectionTitle = None, tables = []\<rparr>"

section \<open>Properties of the canonical key\<close>

lemma alnum_not_underscore: "isSlugAlnum c \<Longrightarrow> c \<noteq> 95"
  by (auto simp: isSlugAlnum_def isAsciiLower_def isDigit_def)

lemma slugRange:
  "isSlugAlnum c \<or> c = 95 \<Longrightarrow> (97 \<le> c \<and> c \<le> 122) \<or> (48 \<le> c \<and> c \<le> 57) \<or> c = 95"
  by (auto simp: isSlugAlnum_def isAsciiLower_def isDigit_def)

lemma replaceRuns_chars: "c \<in> set (replaceRuns b t) \<Longrightarrow> isSlugAlnum c \<or> c = 95"
  by (induction b t rule: replaceRuns.induct) (auto split: if_splits)

lemma replaceRuns_True_hd: "replaceRuns True t = [] \<or> hd (replaceRuns True t) \<noteq> 95"
  by (induction t) (auto simp: alnum_not_underscore)

lemma dbl_Cons:
  "sublist [95::nat, 95] (c # r) \<longleftrightarrow> (c = 95 \<and> r \<noteq> [] \<and> hd r = 95) \<or> sublist [95, 95] r"
  by (cases r) (auto simp: sublist_Cons_right)

lemma replaceRuns_nodbl: "\<not> sublist [95, 95] (replaceRuns b t)"
proof (induction b t rule: replaceRuns.induct)
  case (1 inRun)
  then show ?case by simp
next
  case (2 inRun c cs)
  show ?case using 2 replaceRuns_True_hd[of cs]
    by (auto simp: dbl_Cons alnum_not_underscore)
qed

lemma strip_set: "set (stripUnderscores s) \<subseteq> set s"
proof
  fix x assume "x \<in> set (stripUnderscores s)"
  then have "x \<in> set (dropWhile (\<lambda>c. c = 95) (rev (dropWhile (\<lambda>c. c = 95) s)))"
    by (simp add: stripUnderscores_def)
  then have "x \<in> set (rev (dropWhile (\<lambda>c. c = 95) s))" by (rule set_dropWhileD)
  then have "x \<in> set (dropWhile (\<lambda>c. c = 95) s)" by simp
  then show "x \<in> set s" by (rule set_dropWhileD)
qed

lemma sublist_dropWhile: "sublist (dropWhile P ys) ys"
  by (simp add: suffix_dropWhile)

lemma strip_sublist: "sublist (stripUnderscores s) s"
proof -
  define a where "a = dropWhile (\<lambda>c. c = 95) s"
  have "sublist (dropWhile (\<lambda>c. c = 95) (rev a)) (rev a)" by (rule sublist_dropWhile)
  then have "sublist (rev (dropWhile (\<lambda>c. c = 95) (rev a))) (rev (rev a))"
    by (simp only: sublist_rev)
  then have "sublist (stripUnderscores s) a" by (simp add: stripUnderscores_def a_def)
  moreover have "sublist a s" unfolding a_def by (rule sublist_dropWhile)
  ultimately show ?thesis by (rule sublist_order.order.trans)
qed

lemma strip_nodbl: "\<not> sublist xx s \<Longrightarrow> \<not> sublist xx (stripUnderscores s)"
  using strip_sublist sublist_order.order.trans by blast

lemma strip_ends:
  assumes ne: "stripUnderscores s \<noteq> []"
  shows "hd (stripUnderscores s) \<noteq> 95 \<and> last (stripUnderscores s) \<noteq> 95"
proof -
  define a where "a = dropWhile (\<lambda>c. c = 95) s"
  define b where "b = dropWhile (\<lambda>c. c = 95) (rev a)"
  have sb: "stripUnderscores s = rev b" by (simp add: stripUnderscores_def a_def b_def)
  have bne: "b \<noteq> []" using ne sb by simp
  then have ane: "a \<noteq> []" by (auto simp: b_def)
  have "hd b \<noteq> 95" using hd_dropWhile[of "\<lambda>c. c = 95" "rev a"] bne by (simp add: b_def)
  then have l: "last (rev b) \<noteq> 95" using bne by (simp add: last_rev)
  have ha: "hd a \<noteq> 95" using hd_dropWhile[of "\<lambda>c. c = 95" s] ane by (simp add: a_def)
  have "hd a \<in> set (rev a)" using ane by simp
  then have "last b = last (rev a)"
    unfolding b_def using ha by (rule dropWhile_last)
  then have "last b = hd a" using ane by (simp add: last_rev)
  then have "hd (rev b) \<noteq> 95" using ha bne by (simp add: hd_rev)
  with l sb show ?thesis by simp
qed

lemma collapse_id: "\<not> sublist [95, 95] s \<Longrightarrow> collapseUnderscores s = s"
  by (induction s rule: collapseUnderscores.induct) (auto simp: dbl_Cons)

lemma slugify_shape:
  "(\<forall>c \<in> set (slugify s). isSlugAlnum c \<or> c = 95) \<and>
   (slugify s \<noteq> [] \<longrightarrow> hd (slugify s) \<noteq> 95 \<and> last (slugify s) \<noteq> 95) \<and>
   \<not> sublist [95, 95] (slugify s)"
proof -
  define t where "t = replaceRuns False (transliterate s)"
  have nd: "\<not> sublist [95, 95] (stripUnderscores t)"
    unfolding t_def by (rule strip_nodbl) (rule replaceRuns_nodbl)
  then have eq: "slugify s = stripUnderscores t"
    by (simp add: slugify_def t_def collapse_id)
  have "\<forall>c \<in> set (stripUnderscores t). isSlugAlnum c \<or> c = 95"
    using strip_set[of t] replaceRuns_chars unfolding t_def by blast
  then show ?thesis using eq nd strip_ends[of t] by simp
qed

lemma canon_ascii:
  "c < 128 \<Longrightarrow> canonicalize c = (if 97 \<le> c \<and> c \<le> 122 then c - 32 else c)"
  by (simp add: canonicalize_def isAsciiLower_def)

lemma slugChar_canon:
  assumes "isSlugAlnum c \<or> c = 95"
  shows "canonicalize c < 128 \<and> canonicalize c \<noteq> 40"
proof -
  have r: "(97 \<le> c \<and> c \<le> 122) \<or> (48 \<le> c \<and> c \<le> 57) \<or> c = 95"
    using assms by (rule slugRange)
  then have "c < 128" by arith
  then have e: "canonicalize c = (if 97 \<le> c \<and> c \<le> 122 then c - 32 else c)"
    by (rule canon_ascii)
  show ?thesis
  proof (cases "97 \<le> c \<and> c \<le> 122")
    case True
    then have "canonicalize c = c - 32" using e by simp
    then show ?thesis using True by arith
  next
    case False
    have "canonicalize c = c" by (simp only: e if_not_P[OF False])
    then show ?thesis using False r by arith
  qed
qed

lemma ascii_translit: "c < 128 \<Longrightarrow> translitChar c = [c]"
proof -
  assume "c < 128"
  then have "map_of RU_TO_LAT c = None" by (simp add: RU_TO_LAT_def)
  then show ?thesis by (simp add: translitChar_def)
qed

lemma slugChar_lower: "isSlugAlnum c \<or> c = 95 \<Longrightarrow> lowerChar c = c"
  by (drule slugRange) (auto simp: lowerChar_def isAsciiUpper_def)

lemma slugChar_lowerUnits:
  assumes "isSlugAlnum c \<or> c = 95"
  shows "lowerUnits c = [c]"
proof -
  have "c \<noteq> 304" using slugRange[OF assms] by arith
  then show ?thesis using slugChar_lower[OF assms] by (simp add: lowerUnits_def)
qed

lemma slugChar_translit: "isSlugAlnum c \<or> c = 95 \<Longrightarrow> translitChar c = [c]"
  by (drule slugRange) (auto intro: ascii_translit)

lemma slugChar_ws: "isSlugAlnum c \<or> c = 95 \<Longrightarrow> \<not> isWhiteSpace c"
  by (drule slugRange) (auto simp: isWhiteSpace_def)

lemma slugChar_quote: "isSlugAlnum c \<or> c = 95 \<Longrightarrow> \<not> isQuote c"
  by (drule slugRange) (auto simp: isQuote_def)

lemma transliterate_id:
  assumes "\<forall>c \<in> set k. isSlugAlnum c \<or> c = 95"
  shows "transliterate k = k"
  using assms
  by (induction k)
    (auto simp: transliterate_def toLowerCase_def slugChar_lowerUnits slugChar_translit)

lemma replaceRuns_id:
  "\<forall>c \<in> set k. isSlugAlnum c \<or> c = 95 \<Longrightarrow> \<not> sublist [95, 95] k \<Longrightarrow>
   (b \<longrightarrow> k = [] \<or> hd k \<noteq> 95) \<Longrightarrow> replaceRuns b k = k"
proof (induction k arbitrary: b)
  case Nil
  then show ?case by simp
next
  case (Cons c k)
  show ?case
  proof (cases "isSlugAlnum c")
    case True
    then show ?thesis using Cons by (simp add: dbl_Cons)
  next
    case False
    then have c: "c = 95" using Cons.prems(1) by simp
    then have "\<not> b" using Cons.prems(3) by simp
    moreover have "replaceRuns True k = k"
      using Cons c by (auto simp: dbl_Cons)
    ultimately show ?thesis using False c by simp
  qed
qed

lemma strip_id:
  assumes "k \<noteq> [] \<longrightarrow> hd k \<noteq> 95 \<and> last k \<noteq> 95"
  shows "stripUnderscores k = k"
proof (cases "k = []")
  case True
  then show ?thesis by (simp add: stripUnderscores_def)
next
  case False
  then have "dropWhile (\<lambda>c. c = 95) k = k" using assms by (simp add: dropWhile_eq_self_iff)
  moreover have "dropWhile (\<lambda>c. c = 95) (rev k) = rev k"
    using assms False by (simp add: dropWhile_eq_self_iff hd_rev)
  ultimately show ?thesis by (simp add: stripUnderscores_def)
qed

lemma removeNoise_id:
  assumes "lit \<noteq> []" and "128 \<le> canonicalize (hd lit) \<or> hd lit = 40"
  shows "\<forall>c \<in> set k. isSlugAlnum c \<or> c = 95 \<Longrightarrow> removeNoise lit k = k"
proof (induction k)
  case Nil
  then show ?case by simp
next
  case (Cons c k)
  obtain p ps where lit: "lit = p # ps" using assms(1) by (cases lit) auto
  have c: "isSlugAlnum c \<or> c = 95" using Cons.prems by simp
  have c40: "canonicalize (40::nat) = 40"
    by (simp add: canonicalize_def isAsciiLower_def)
  have "canonicalize p \<noteq> canonicalize c"
  proof (cases "p = 40")
    case True
    then show ?thesis using slugChar_canon[OF c] c40 by simp
  next
    case False
    then have "128 \<le> canonicalize p" using assms(2) lit by simp
    then show ?thesis using slugChar_canon[OF c] by simp
  qed
  then show ?case using Cons c lit by (simp add: slugChar_ws)
qed

lemma dropWhile_none: "\<forall>c \<in> set xs. \<not> P c \<Longrightarrow> dropWhile P xs = xs"
  by (cases xs) auto

lemma trim_id:
  assumes "\<forall>c \<in> set k. \<not> isWhiteSpace c"
  shows "trim k = k"
proof -
  have "dropWhile isWhiteSpace k = k" using assms by (rule dropWhile_none)
  moreover have "dropWhile isWhiteSpace (rev k) = rev k"
    using assms by (intro dropWhile_none) simp
  ultimately show ?thesis by (simp add: trim_def trimStart_def trimEnd_def)
qed

lemma slug_fixed:
  assumes "\<forall>c \<in> set k. isSlugAlnum c \<or> c = 95"
    and "k \<noteq> [] \<longrightarrow> hd k \<noteq> 95 \<and> last k \<noteq> 95"
    and "\<not> sublist [95, 95] k"
  shows "slugify k = k" and "generateCanonicalKey k = k"
proof -
  show s: "slugify k = k"
    using assms
    by (simp add: slugify_def transliterate_id replaceRuns_id strip_id collapse_id)
  have 1: "removeNoise NOISE_PAREN k = k"
    using assms(1) by (intro removeNoise_id) (simp_all add: NOISE_PAREN_def)
  have 2: "removeNoise NOISE_OR k = k"
    using assms(1)
    by (intro removeNoise_id) (simp_all add: NOISE_OR_def canonicalize_def isAsciiLower_def)
  have 3: "removeNoise NOISE_ANALOG k = k"
    using assms(1)
    by (intro removeNoise_id) (simp_all add: NOISE_ANALOG_def canonicalize_def isAsciiLower_def)
  have 4: "filter (\<lambda>c. \<not> isQuote c) k = k"
    using assms(1) by (simp add: slugChar_quote)
  have 5: "trim k = k"
    using assms(1) by (intro trim_id) (auto simp: slugChar_ws)
  show "generateCanonicalKey k = k"
    by (simp add: generateCanonicalKey_def 1 2 3 4 5 s)
qed

lemma generateCanonicalKey_slugify:
  "\<exists>t. generateCanonicalKey s = slugify t"
  by (auto simp: generateCanonicalKey_def)

section \<open>Claims about the canonical key\<close>

lemmas canon_eval = generateCanonicalKey_def NOISE_ANALOG_def NOISE_OR_def NOISE_PAREN_def
  canonicalize_def isAsciiLower_def isAsciiUpper_def isDigit_def isWhiteSpace_def trim_def
  trimStart_def trimEnd_def isQuote_def slugify_def transliterate_def toLowerCase_def
  lowerChar_def lowerUnits_def stripUnderscores_def translitChar_def RU_TO_LAT_def
  isSlugAlnum_def

lemma key_brick_analog:
  "generateCanonicalKey NAME_BRICK_ANALOG = asc ''kirpich_keramicheskiy''"
  by (simp add: NAME_BRICK_ANALOG_def canon_eval)

text \<open>
  C10. For every input string the output of \<open>generateCanonicalKey\<close> consists only of
  characters of \<open>[a-z0-9_]\<close> (code units 97 to 122, 48 to 57 and 95), neither begins
  nor ends with an underscore, and has no two underscores in a row. The output can be
  the empty string: it is for an input made of noise phrases only, of quotes only, of
  punctuation only, and of the hard and the soft sign only.
\<close>

theorem canonical_key_shape:
  "(\<forall>c \<in> set (generateCanonicalKey s).
      (97 \<le> c \<and> c \<le> 122) \<or> (48 \<le> c \<and> c \<le> 57) \<or> c = 95) \<and>
   (generateCanonicalKey s \<noteq> [] \<longrightarrow>
      hd (generateCanonicalKey s) \<noteq> 95 \<and> last (generateCanonicalKey s) \<noteq> 95) \<and>
   \<not> sublist [95, 95] (generateCanonicalKey s) \<and>
   generateCanonicalKey (NOISE_PAREN @ [32] @ NOISE_OR @ [32] @ NOISE_ANALOG) = [] \<and>
   generateCanonicalKey [34, 171, 187] = [] \<and>
   generateCanonicalKey (asc ''..., --!'') = [] \<and>
   generateCanonicalKey [cy_hard, cy_soft, CY_TS + 4, CY_TS + 6] = []"
proof -
  obtain t where t: "generateCanonicalKey s = slugify t"
    using generateCanonicalKey_slugify by blast
  have "\<forall>c \<in> set (slugify t). (97 \<le> c \<and> c \<le> 122) \<or> (48 \<le> c \<and> c \<le> 57) \<or> c = 95"
    using slugify_shape[of t] slugRange by blast
  moreover have "slugify t \<noteq> [] \<longrightarrow> hd (slugify t) \<noteq> 95 \<and> last (slugify t) \<noteq> 95"
    using slugify_shape[of t] by blast
  moreover have "\<not> sublist [95, 95] (slugify t)"
    using slugify_shape[of t] by blast
  moreover have
    "generateCanonicalKey (NOISE_PAREN @ [32] @ NOISE_OR @ [32] @ NOISE_ANALOG) = []"
    by (simp add: canon_eval)
  moreover have "generateCanonicalKey [34, 171, 187] = []"
    by (simp add: canon_eval)
  moreover have "generateCanonicalKey (asc ''..., --!'') = []"
    by (simp add: canon_eval)
  moreover have "generateCanonicalKey [cy_hard, cy_soft, CY_TS + 4, CY_TS + 6] = []"
    by (simp add: canon_eval)
  ultimately show ?thesis unfolding t by blast
qed

theorem canonical_key_shape_witness:
  "generateCanonicalKey NAME_BRICK_ANALOG = asc ''kirpich_keramicheskiy'' \<and>
   list_all (\<lambda>c. (97 \<le> c \<and> c \<le> 122) \<or> (48 \<le> c \<and> c \<le> 57) \<or> c = 95)
     (generateCanonicalKey NAME_BRICK_ANALOG) \<and>
   hd (generateCanonicalKey NAME_BRICK_ANALOG) \<noteq> 95 \<and>
   last (generateCanonicalKey NAME_BRICK_ANALOG) \<noteq> 95 \<and>
   \<not> sublist [95, 95] (generateCanonicalKey NAME_BRICK_ANALOG)"
proof -
  have ne: "generateCanonicalKey NAME_BRICK_ANALOG \<noteq> []"
    by (simp add: key_brick_analog)
  show ?thesis
    using canonical_key_shape[of NAME_BRICK_ANALOG] ne key_brick_analog
    by (simp only: list_all_iff) blast
qed

text \<open>
  C5. \<open>generateCanonicalKey\<close> is idempotent: applied to its own output it returns that
  output; and slugifying a slug returns it unchanged.
\<close>

theorem canonical_key_idempotent:
  "generateCanonicalKey (generateCanonicalKey s) = generateCanonicalKey s \<and>
   slugify (slugify s) = slugify s"
proof -
  obtain t where t: "generateCanonicalKey s = slugify t"
    using generateCanonicalKey_slugify by blast
  have "generateCanonicalKey (slugify t) = slugify t"
    using slugify_shape[of t] by (intro slug_fixed(2)) blast+
  moreover have "slugify (slugify s) = slugify s"
    using slugify_shape[of s] by (intro slug_fixed(1)) blast+
  ultimately show ?thesis by (simp add: t)
qed

theorem canonical_key_idempotent_witness:
  "generateCanonicalKey NAME_BRICK_ANALOG = asc ''kirpich_keramicheskiy'' \<and>
   generateCanonicalKey (asc ''kirpich_keramicheskiy'') = asc ''kirpich_keramicheskiy'' \<and>
   slugify (slugify NAME_BRICK_ANALOG) = slugify NAME_BRICK_ANALOG"
  using canonical_key_idempotent[of NAME_BRICK_ANALOG] key_brick_analog
  by simp

section \<open>Properties of the classifier\<close>

lemma str_includes_sublist: "str_includes s k \<longleftrightarrow> sublist k s"
  by (induction s) (auto simp: sublist_Cons_right)

lemma sublist_split_at:
  assumes "sublist k (a @ c # b)" and "c \<notin> set k"
  shows "sublist k a \<or> sublist k b"
proof -
  have pre: "sublist k b" if "prefix k (c # b)"
  proof (cases k)
    case Nil
    then show ?thesis by simp
  next
    case (Cons x xs)
    then show ?thesis using that assms(2) by simp
  qed
  have "sublist k a \<or> sublist k (c # b) \<or>
      (\<exists>k1 k2. k = k1 @ k2 \<and> suffix k1 a \<and> prefix k2 (c # b))"
    using assms(1) by (simp only: sublist_append)
  moreover have "sublist k b" if "sublist k (c # b)"
    using that pre by (auto simp: sublist_Cons_right)
  moreover have "sublist k a" if "\<exists>k1 k2. k = k1 @ k2 \<and> suffix k1 a \<and> prefix k2 (c # b)"
  proof -
    from that obtain k1 k2 where k: "k = k1 @ k2" "suffix k1 a" "prefix k2 (c # b)" by blast
    show ?thesis
    proof (cases k2)
      case Nil
      then show ?thesis using k by (simp add: suffix_imp_sublist)
    next
      case (Cons x xs)
      then have "c \<in> set k" using k by simp
      then show ?thesis using assms(2) by simp
    qed
  qed
  ultimately show ?thesis by blast
qed

lemma sublist_join_space:
  assumes "sp \<notin> set k" and "k \<noteq> []"
  shows "sublist k (join [sp] hs) \<Longrightarrow> \<exists>h \<in> set hs. sublist k h"
proof (induction hs rule: induct_list012)
  case 1
  then show ?case using assms(2) by simp
next
  case (2 x)
  then show ?case by simp
next
  case (3 x y ys)
  then have "sublist k (x @ sp # join [sp] (y # ys))" by simp
  then have "sublist k x \<or> sublist k (join [sp] (y # ys))"
    using assms(1) by (rule sublist_split_at)
  then show ?case using 3 by auto
qed

lemma no_keyword_unknown:
  assumes "\<forall>h \<in> set (headers t). \<forall>k \<in> set RECOGNIZED_KEYWORDS.
             \<not> str_includes (trim (toLowerCase h)) k"
  shows "classifyTable t = unknown"
proof -
  define h where "h = map (\<lambda>s. trim (toLowerCase s)) (headers t)"
  have none: "\<not> someIncludes h k" if "k \<in> set RECOGNIZED_KEYWORDS" for k
    using assms that by (auto simp: someIncludes_def h_def list_ex_iff)
  have free: "\<not> str_includes (join [32] h) k'"
    if p: "k \<in> set RECOGNIZED_KEYWORDS" "sublist k k'" "32 \<notin> set k" "k \<noteq> []" for k k'
  proof
    assume "str_includes (join [32] h) k'"
    then have "sublist k (join [32] h)"
      using p(2) by (auto simp: str_includes_sublist intro: sublist_order.order.trans)
    then obtain x where "x \<in> set h" "sublist k x"
      using sublist_join_space[OF p(3,4)] by blast
    then have "someIncludes h k"
      by (auto simp: someIncludes_def list_ex_iff str_includes_sublist)
    then show False using none[OF p(1)] by simp
  qed
  have pol: "sublist KW_pol KW_tip_pola"
    unfolding KW_pol_def KW_tip_pola_def
    by (simp add: sublist_code)
  have pok: "sublist KW_pokryt KW_tip_pokrytiya"
    unfolding KW_pokryt_def KW_tip_pokrytiya_def
    by (simp add: sublist_code)
  have j1: "\<not> str_includes (join [32] h) KW_tip_pola"
    by (rule free[OF _ pol]) (simp_all add: RECOGNIZED_KEYWORDS_def KW_pol_def)
  have j2: "\<not> str_includes (join [32] h) KW_tip_pokrytiya"
    by (rule free[OF _ pok]) (simp_all add: RECOGNIZED_KEYWORDS_def KW_pokryt_def)
  have j3: "\<not> str_includes (join [32] h) KW_pokryt"
    by (rule free[OF _ sublist_order.order.refl]) (simp_all add: RECOGNIZED_KEYWORDS_def KW_pokryt_def)
  have s: "\<not> someIncludes h KW_izm" "\<not> someIncludes h KW_no_pom"
    "\<not> someIncludes h KW_nomer_pom" "\<not> someIncludes h KW_naimenovanie"
    "\<not> someIncludes h KW_poz" "\<not> someIncludes h KW_marka" "\<not> someIncludes h KW_pol"
    by (rule none, simp add: RECOGNIZED_KEYWORDS_def)+
  show ?thesis
    unfolding classifyTable_def Let_def h_def[symmetric]
    using j1 j2 j3 s by simp
qed

section \<open>Claims about the classifier\<close>

lemmas header_defs = H_Izm_def H_Podpis_def H_Data_def H_Naimenovanie_def H_Kol_vo_def
  H_Kolichestvo_def H_Ed_izm_def H_Poz_def H_Oboznachenie_def H_Marka_def H_Tsvet_def
  H_Razmer_def

lemmas keyword_defs = KW_izm_def KW_podp_def KW_data_def KW_no_pom_def KW_nomer_pom_def
  KW_ploshchad_def KW_naimenovanie_def KW_kolichestvo_def KW_kol_vo_def KW_kol_def KW_ed_def
  KW_poz_def KW_oboznachenie_def KW_marka_def KW_sht_def KW_tip_pola_def KW_pol_def
  KW_dannye_elementov_def KW_tip_pokrytiya_def KW_pokryt_def KW_naznachenie_def

lemmas string_eval = trim_def trimStart_def trimEnd_def toLowerCase_def lowerChar_def
  lowerUnits_def
  isAsciiUpper_def isWhiteSpace_def

lemmas classify_eval = classifyTable_def someIncludes_def keyword_defs header_defs string_eval

lemma classify_change_log:
  "classifyTable \<lparr>headers = [H_Izm, H_Podpis, H_Data], rows = r, sectionContext = sc\<rparr>
     = change_log"
  by (simp add: classify_eval)

lemma classify_material_qty:
  "classifyTable \<lparr>headers = [H_Naimenovanie, H_Kol_vo, H_Ed_izm], rows = r,
     sectionContext = sc\<rparr> = material_qty"
  by (simp add: classify_eval)

lemma classify_spec_elements:
  "classifyTable \<lparr>headers = [H_Poz, H_Oboznachenie, H_Naimenovanie, H_Kol_vo], rows = r,
     sectionContext = sc\<rparr> = spec_elements"
  by (simp add: classify_eval)

lemma classify_element_spec:
  "classifyTable \<lparr>headers = [H_Marka, H_Kol_vo], rows = r, sectionContext = sc\<rparr>
     = element_spec"
  by (simp add: classify_eval)

lemma classify_first_match:
  "classifyTable \<lparr>headers = [H_Izm, H_Data, H_Naimenovanie, H_Kolichestvo, H_Ed_izm],
     rows = r, sectionContext = sc\<rparr> = change_log"
  by (simp add: classify_eval)

text \<open>
  C6. \<open>classifyTable\<close> is a function of the header cells, the first matching rule
  deciding: the headers \<open>Izm., Podpis', Data\<close> give \<open>change_log\<close>;
  \<open>Naimenovanie, Kol-vo, Ed.izm.\<close> give \<open>material_qty\<close>;
  \<open>Poz., Oboznachenie, Naimenovanie, Kol-vo\<close> give \<open>spec_elements\<close>;
  \<open>Marka, Kol-vo\<close> give \<open>element_spec\<close>; a table whose headers match the rule of
  \<open>change_log\<close> and the rule of \<open>material_qty\<close> is a \<open>change_log\<close>; the result does
  not depend on the rows or the section context; and a table none of whose headers
  (lower-cased and trimmed) contains a keyword of the classifier is \<open>unknown\<close>.
\<close>

theorem table_classification:
  "classifyTable \<lparr>headers = [H_Izm, H_Podpis, H_Data], rows = r, sectionContext = sc\<rparr>
     = change_log \<and>
   classifyTable \<lparr>headers = [H_Naimenovanie, H_Kol_vo, H_Ed_izm], rows = r,
     sectionContext = sc\<rparr> = material_qty \<and>
   classifyTable \<lparr>headers = [H_Poz, H_Oboznachenie, H_Naimenovanie, H_Kol_vo], rows = r,
     sectionContext = sc\<rparr> = spec_elements \<and>
   classifyTable \<lparr>headers = [H_Marka, H_Kol_vo], rows = r, sectionContext = sc\<rparr>
     = element_spec \<and>
   classifyTable \<lparr>headers = [H_Izm, H_Data, H_Naimenovanie, H_Kolichestvo, H_Ed_izm],
     rows = r, sectionContext = sc\<rparr> = change_log \<and>
   classifyTable \<lparr>headers = headers t, rows = r, sectionContext = sc\<rparr> = classifyTable t \<and>
   ((\<forall>h \<in> set (headers t). \<forall>k \<in> set RECOGNIZED_KEYWORDS.
        \<not> str_includes (trim (toLowerCase h)) k)
     \<longrightarrow> classifyTable t = unknown)"
proof -
  have "classifyTable \<lparr>headers = headers t, rows = r, sectionContext = sc\<rparr> = classifyTable t"
    by (simp add: classifyTable_def)
  then show ?thesis
    using classify_change_log classify_material_qty classify_spec_elements
      classify_element_spec classify_first_match no_keyword_unknown
    by blast
qed

theorem table_classification_witness:
  "classifyTable \<lparr>headers = [H_Tsvet, H_Razmer], rows = [], sectionContext = None\<rparr>
     = unknown"
proof -
  have "\<forall>h \<in> set (headers \<lparr>headers = [H_Tsvet, H_Razmer], rows = [], sectionContext = None\<rparr>).
          \<forall>k \<in> set RECOGNIZED_KEYWORDS. \<not> str_includes (trim (toLowerCase h)) k"
    by (simp add: RECOGNIZED_KEYWORDS_def keyword_defs header_defs string_eval)
  then show ?thesis
    using table_classification[of "[]" None
        "\<lparr>headers = [H_Tsvet, H_Razmer], rows = [], sectionContext = None\<rparr>"]
    by blast
qed

section \<open>Properties of the merge\<close>

lemma firstByKey_set: "set (firstByKey key xs) \<subseteq> set xs"
  by (induction key xs rule: firstByKey.induct) auto

lemma firstByKey_distinct: "distinct (map key (firstByKey key xs))"
proof (induction key xs rule: firstByKey.induct)
  case (1 key)
  then show ?case by simp
next
  case (2 key x xs)
  have "key x \<notin> key ` set (firstByKey key (filter (\<lambda>y. key y \<noteq> key x) xs))"
    using firstByKey_set[of key "filter (\<lambda>y. key y \<noteq> key x) xs"] by auto
  then show ?case using 2 by simp
qed

lemma firstByKey_keys: "key ` set (firstByKey key xs) = key ` set xs"
proof (induction key xs rule: firstByKey.induct)
  case (1 key)
  then show ?case by simp
next
  case (2 key x xs)
  have "key ` set (x # xs) = insert (key x) (key ` set (filter (\<lambda>y. key y \<noteq> key x) xs))"
    by auto
  then show ?case using 2 by simp
qed

lemma addUnseen_eq:
  "addUnseen key xs (seen, merged) =
     (seen \<union> key ` set xs, merged @ firstByKey key (filter (\<lambda>i. key i \<notin> seen) xs))"
proof (induction xs arbitrary: seen merged)
  case Nil
  then show ?case by simp
next
  case (Cons x xs)
  show ?case
  proof (cases "key x \<in> seen")
    case True
    then show ?thesis using Cons by auto
  next
    case False
    have "filter (\<lambda>y. key y \<noteq> key x) (filter (\<lambda>i. key i \<notin> seen) xs)
          = filter (\<lambda>i. key i \<notin> insert (key x) seen) xs"
      by (induction xs) auto
    then show ?thesis using False Cons by auto
  qed
qed

lemma mergeResults_eq:
  "mergeResults lower numStr ruleBased llmItems =
     firstByKey (dedupKey lower numStr) ruleBased
     @ firstByKey (dedupKey lower numStr)
         (filter (\<lambda>i. dedupKey lower numStr i \<notin> dedupKey lower numStr ` set ruleBased) llmItems)"
  by (simp add: mergeResults_def addUnseen_eq)

lemma image_filter_disjoint: "S \<inter> f ` set (filter (\<lambda>i. f i \<notin> S) xs) = {}"
  by auto

lemma mergeResults_distinct:
  "distinct (map (dedupKey lower numStr) (mergeResults lower numStr ruleBased llmItems))"
proof -
  let ?k = "dedupKey lower numStr"
  let ?L = "firstByKey ?k (filter (\<lambda>i. ?k i \<notin> ?k ` set ruleBased) llmItems)"
  have "?k ` set (firstByKey ?k ruleBased) \<inter> ?k ` set ?L = {}"
    unfolding firstByKey_keys by (rule image_filter_disjoint)
  then show ?thesis
    by (simp add: mergeResults_eq firstByKey_distinct)
qed

lemma merge_same_key:
  "dedupKey lower numStr b = dedupKey lower numStr a \<Longrightarrow>
   mergeResults lower numStr [a] [b] = [a]"
  by (simp add: mergeResults_def)

text \<open>
  C4. For every two lists, and whatever the lower-casing of strings and the string
  form of numbers are, \<open>mergeResults\<close> returns the deduplicated ordered union of the
  lists: first the rule-based items, each key once (the first item with it), then the
  LLM items whose key no rule-based item has, each key once; so all keys of the result
  are different, and every item of the result comes from one of the lists. The key is
  the lower-cased trimmed \<open>raw_name\<close>, a bar, the string form of the quantity (nothing
  for \<open>null\<close>), a bar, and the lower-cased trimmed unit (nothing for \<open>null\<close>). Two empty
  lists give the empty list. An LLM item with the key of a rule item is dropped: one
  rule item merged with one LLM item of the same key gives the rule item alone. So a
  rule item with the name \<open>Kirpich\<close>, the quantity 100 and the unit \<open>sht\<close>, merged with
  an LLM item that differs from it in the canonical name only, gives the rule item
  alone.
\<close>

theorem merge_dedup:
  "mergeResults lower numStr ruleBased llmItems =
     firstByKey (dedupKey lower numStr) ruleBased
     @ firstByKey (dedupKey lower numStr)
         (filter (\<lambda>i. dedupKey lower numStr i \<notin> dedupKey lower numStr ` set ruleBased)
            llmItems) \<and>
   distinct (map (dedupKey lower numStr) (mergeResults lower numStr ruleBased llmItems)) \<and>
   set (mergeResults lower numStr ruleBased llmItems) \<subseteq> set ruleBased \<union> set llmItems \<and>
   dedupKey lower numStr item =
     trim (lower (raw_name item)) @ [124]
     @ (case quantity item of None \<Rightarrow> [] | Some q \<Rightarrow> numStr q) @ [124]
     @ trim (lower (case unit item of None \<Rightarrow> [] | Some u \<Rightarrow> u)) \<and>
   mergeResults lower numStr [] [] = [] \<and>
   (dedupKey lower numStr b = dedupKey lower numStr a \<longrightarrow>
      mergeResults lower numStr [a] [b] = [a]) \<and>
   mergeResults lower numStr
     [\<lparr>raw_name = NAME_BRICK, canonical_name = cn, canonical_key = ck,
       quantity = Some (Fin 100), unit = Some UNIT_SHT, mark = mk, gost = g,
       description = d, item_note = nt, source_snippet = sn, confidence = cf\<rparr>]
     [\<lparr>raw_name = NAME_BRICK, canonical_name = cn', canonical_key = ck,
       quantity = Some (Fin 100), unit = Some UNIT_SHT, mark = mk, gost = g,
       description = d, item_note = nt, source_snippet = sn, confidence = cf\<rparr>]
   = [\<lparr>raw_name = NAME_BRICK, canonical_name = cn, canonical_key = ck,
       quantity = Some (Fin 100), unit = Some UNIT_SHT, mark = mk, gost = g,
       description = d, item_note = nt, source_snippet = sn, confidence = cf\<rparr>]"
proof -
  have "set (mergeResults lower numStr ruleBased llmItems) \<subseteq> set ruleBased \<union> set llmItems"
    unfolding mergeResults_eq
    using firstByKey_set[of "dedupKey lower numStr" ruleBased]
      firstByKey_set[of "dedupKey lower numStr"
        "filter (\<lambda>i. dedupKey lower numStr i \<notin> dedupKey lower numStr ` set ruleBased)
           llmItems"]
    by auto
  moreover have "dedupKey lower numStr item =
     trim (lower (raw_name item)) @ [124]
     @ (case quantity item of None \<Rightarrow> [] | Some q \<Rightarrow> numStr q) @ [124]
     @ trim (lower (case unit item of None \<Rightarrow> [] | Some u \<Rightarrow> u))"
    by (simp add: dedupKey_def orEmpty_def)
  moreover have "mergeResults lower numStr [] [] = []"
    by (simp add: mergeResults_def)
  moreover have "dedupKey lower numStr b = dedupKey lower numStr a \<longrightarrow>
      mergeResults lower numStr [a] [b] = [a]"
    by (simp add: merge_same_key)
  ultimately show ?thesis
    using mergeResults_eq mergeResults_distinct
    by (simp add: merge_same_key dedupKey_def)
qed

theorem merge_dedup_witness:
  "dedupKey toLowerCase (\<lambda>q. []) ITEM_LLM_BRICK = dedupKey toLowerCase (\<lambda>q. []) ITEM_RULE_BRICK \<and>
   ITEM_LLM_BRICK \<noteq> ITEM_RULE_BRICK \<and>
   mergeResults toLowerCase (\<lambda>q. []) [ITEM_RULE_BRICK] [ITEM_LLM_BRICK] = [ITEM_RULE_BRICK]"
proof -
  have k: "dedupKey toLowerCase (\<lambda>q. []) ITEM_LLM_BRICK
           = dedupKey toLowerCase (\<lambda>q. []) ITEM_RULE_BRICK"
    by (simp add: dedupKey_def ITEM_LLM_BRICK_def ITEM_RULE_BRICK_def NAME_BRICK_def
        UNIT_SHT_def orEmpty_def string_eval)
  have n: "ITEM_LLM_BRICK \<noteq> ITEM_RULE_BRICK"
    by (simp add: ITEM_LLM_BRICK_def ITEM_RULE_BRICK_def NAME_BRICK_def)
  show ?thesis
    using merge_dedup[where lower = toLowerCase and numStr = "\<lambda>q. []"
        and a = ITEM_RULE_BRICK and b = ITEM_LLM_BRICK] k n
    by blast
qed

section \<open>Properties of the number parser\<close>

lemmas number_eval = parseRussianNumber_def parseFloat_def strDecimalLiteral_def
  unsignedDecimalLiteral_def exponentPart_def digitsVal_def pow10_def negate_def isDigit_def
  cleanedForm_def isNumeral_def TEXT_1692_9_def TEXT_202_6_def TEXT_12_SHT_def Let_def

lemma unsignedDecimalLiteral_not_NaN:
  "unsignedDecimalLiteral s = Some (p, v) \<Longrightarrow> v = PosInfinity \<or> (\<exists>r. v = Fin r)"
  by (auto simp: unsignedDecimalLiteral_def Let_def split: if_splits)

lemma strDecimalLiteral_not_NaN: "strDecimalLiteral s = Some (p, v) \<Longrightarrow> v \<noteq> NaN"
  by (auto simp: strDecimalLiteral_def negate_def split: if_splits
      dest!: unsignedDecimalLiteral_not_NaN)

lemma replaceFirst_set: "set (replaceFirst a b s) \<subseteq> insert b (set s)"
  by (induction s) auto

lemma cleanedForm_no_space: "c \<in> set (cleanedForm t) \<Longrightarrow> \<not> isWhiteSpace c"
proof -
  assume "c \<in> set (cleanedForm t)"
  then have "c = 46 \<or> c \<in> set (filter (\<lambda>c. \<not> isWhiteSpace c) (trim t))"
    using replaceFirst_set[of 44 46 "filter (\<lambda>c. \<not> isWhiteSpace c) (trim t)"]
    by (auto simp: cleanedForm_def)
  then show ?thesis by (auto simp: isWhiteSpace_def)
qed

lemma trimStart_cleanedForm: "trimStart (cleanedForm t) = cleanedForm t"
  unfolding trimStart_def
  by (rule dropWhile_none) (simp add: cleanedForm_no_space)

lemma trim_Nil: "trim [] = []"
  by (simp add: trim_def trimStart_def trimEnd_def)

lemma parseRussianNumber_eq:
  assumes "trim t \<noteq> []" and "trim t \<noteq> [45]"
  shows "parseRussianNumber (Some t) =
    (case strDecimalLiteral (cleanedForm t) of None \<Rightarrow> None | Some (p, v) \<Rightarrow> Some v)"
proof -
  have t: "t \<noteq> []" using assms(1) trim_Nil by auto
  show ?thesis
  proof (cases "strDecimalLiteral (cleanedForm t)")
    case None
    then show ?thesis
      using assms t
      by (simp add: parseRussianNumber_def parseFloat_def trimStart_cleanedForm
          cleanedForm_def[symmetric])
  next
    case (Some pv)
    obtain p v where pv: "pv = (p, v)" by (cases pv)
    have "v \<noteq> NaN" using Some pv strDecimalLiteral_not_NaN by blast
    then show ?thesis
      using assms t Some pv
      by (simp add: parseRussianNumber_def parseFloat_def trimStart_cleanedForm
          cleanedForm_def[symmetric])
  qed
qed

lemma parse_1692_9: "parseRussianNumber (Some TEXT_1692_9) = Some (Fin (16929 / 10))"
  by (simp add: number_eval string_eval)

lemma parse_202_6: "parseRussianNumber (Some TEXT_202_6) = Some (Fin (2026 / 10))"
  by (simp add: number_eval string_eval)

lemma parse_12_sht: "parseRussianNumber (Some TEXT_12_SHT) = Some (Fin 12)"
  by (simp add: number_eval string_eval)

text \<open>
  C3, as the spec states it, fails: a string whose cleaned form is not a numeral
  does not yield \<open>null\<close> when it starts with one. The cell \<open>12 sht\<close> (the unit in
  Cyrillic) has the cleaned form \<open>12sht\<close>, which is not a numeral, and yields 12.
\<close>

theorem parse_number_prefix_counterexample:
  "\<not> isNumeral (cleanedForm TEXT_12_SHT) \<and>
   parseRussianNumber (Some TEXT_12_SHT) = Some (Fin 12)"
  by (simp add: number_eval string_eval)

text \<open>
  C3, amended. \<open>parseRussianNumber\<close> maps a missing cell, the empty string, a string
  of white space and \<open>-\<close> (after trimming) to \<open>null\<close>. Otherwise it trims the string,
  removes all white space, replaces the first comma by a dot, and returns the value
  of the longest prefix of the result that is a decimal literal, whatever follows
  that prefix; it returns \<open>null\<close> when no prefix is a decimal literal. So
  \<open>1 692,9\<close> yields 1692.9, \<open>202,6\<close> yields 202.6, and the empty string and \<open>-\<close>
  yield \<open>null\<close>.
\<close>

theorem parse_number_amended:
  "parseRussianNumber None = None \<and>
   parseRussianNumber (Some []) = None \<and>
   parseRussianNumber (Some (asc ''-'')) = None \<and>
   parseRussianNumber (Some TEXT_1692_9) = Some (Fin (16929 / 10)) \<and>
   parseRussianNumber (Some TEXT_202_6) = Some (Fin (2026 / 10)) \<and>
   (trim t = [] \<or> trim t = asc ''-'' \<longrightarrow> parseRussianNumber (Some t) = None) \<and>
   (trim t \<noteq> [] \<and> trim t \<noteq> asc ''-'' \<longrightarrow>
      parseRussianNumber (Some t) =
        (case strDecimalLiteral (cleanedForm t) of None \<Rightarrow> None | Some (p, v) \<Rightarrow> Some v))"
proof -
  have "parseRussianNumber None = None"
    by (simp add: parseRussianNumber_def)
  moreover have "parseRussianNumber (Some []) = None"
    by (simp add: parseRussianNumber_def)
  moreover have "parseRussianNumber (Some (asc ''-'')) = None"
    by (simp add: parseRussianNumber_def string_eval)
  moreover have "trim t = [] \<or> trim t = asc ''-'' \<longrightarrow> parseRussianNumber (Some t) = None"
    by (auto simp: parseRussianNumber_def)
  moreover have "trim t \<noteq> [] \<and> trim t \<noteq> asc ''-'' \<longrightarrow>
      parseRussianNumber (Some t) =
        (case strDecimalLiteral (cleanedForm t) of None \<Rightarrow> None | Some (p, v) \<Rightarrow> Some v)"
    using parseRussianNumber_eq[of t] by simp
  ultimately show ?thesis
    using parse_1692_9 parse_202_6 by blast
qed

theorem parse_number_amended_witness:
  "trim TEXT_12_SHT = TEXT_12_SHT \<and>
   strDecimalLiteral (cleanedForm TEXT_12_SHT) = Some (asc ''12'', Fin 12) \<and>
   parseRussianNumber (Some TEXT_12_SHT) = Some (Fin 12)"
proof -
  have a: "trim TEXT_12_SHT = TEXT_12_SHT"
    by (simp add: TEXT_12_SHT_def string_eval)
  have b: "strDecimalLiteral (cleanedForm TEXT_12_SHT) = Some (asc ''12'', Fin 12)"
    by (simp add: number_eval string_eval)
  have c: "trim TEXT_12_SHT \<noteq> [] \<and> trim TEXT_12_SHT \<noteq> asc ''-''"
    by (simp add: a) (simp add: TEXT_12_SHT_def)
  show ?thesis
    using parse_number_amended[of TEXT_12_SHT] a b c by simp
qed

section \<open>Properties of the rule-based extraction\<close>

lemma materialQtyRow_item:
  "it \<in> set (materialQtyRow numStr n q u row) \<Longrightarrow>
     confidence it = Fin (95 / 100) \<and>
     unit it = (case u of None \<Rightarrow> None | Some i \<Rightarrow> orNull (cellTrim row i))"
  by (auto simp: materialQtyRow_def Let_def split: if_splits)

lemma extractMaterialQty_item:
  assumes "it \<in> set (extractMaterialQty numStr t)"
  shows "confidence it = Fin (95 / 100) \<and>
         (\<exists>row \<in> set (rows t). unit it = unitColumnCell (headers t) row)"
proof -
  from assms obtain n row where
    "row \<in> set (rows t)"
    "it \<in> set (materialQtyRow numStr n
        (findColumnIndex (headers t) [KW_kolichestvo, KW_kol_vo, KW_kol])
        (findColumnIndex (headers t) [KW_ed_izm, KW_ed_dot, KW_ed]) row)"
    by (auto simp: extractMaterialQty_def Let_def split: option.splits)
  then show ?thesis
    using materialQtyRow_item by (fastforce simp: unitColumnCell_def)
qed

lemma elementSpecRow_item:
  "it \<in> set (elementSpecRow numStr m d q n row) \<Longrightarrow>
     unit it = Some UNIT_SHT \<and> confidence it = Fin (9 / 10)"
  by (auto simp: elementSpecRow_def Let_def split: if_splits)

lemma extractElementSpec_item:
  "it \<in> set (extractElementSpec numStr t) \<Longrightarrow>
     unit it = Some UNIT_SHT \<and> confidence it = Fin (9 / 10)"
  by (auto simp: extractElementSpec_def Let_def split: if_splits dest!: elementSpecRow_item)

lemma specElementsRow_item:
  "it \<in> set (specElementsRow numStr ps d p q n row) \<Longrightarrow>
     unit it = Some UNIT_SHT \<and> confidence it = Fin (9 / 10)"
  by (auto simp: specElementsRow_def Let_def split: if_splits)

lemma extractSpecElements_item:
  "it \<in> set (extractSpecElements numStr t) \<Longrightarrow>
     unit it = Some UNIT_SHT \<and> confidence it = Fin (9 / 10)"
  by (auto simp: extractSpecElements_def Let_def split: option.splits
      dest!: specElementsRow_item)

lemma extractFromTable_other:
  "classifyTable t \<noteq> material_qty \<Longrightarrow> classifyTable t \<noteq> element_spec \<Longrightarrow>
   classifyTable t \<noteq> spec_elements \<Longrightarrow> extractFromTable numStr t = []"
  by (simp add: extractFromTable_def Let_def)

lemma extractFromTable_item:
  assumes "it \<in> set (extractFromTable numStr t)"
  shows "(classifyTable t = material_qty \<and> confidence it = Fin (95 / 100) \<and>
           (\<exists>row \<in> set (rows t). unit it = unitColumnCell (headers t) row)) \<or>
         ((classifyTable t = element_spec \<or> classifyTable t = spec_elements) \<and>
           unit it = Some UNIT_SHT \<and> confidence it = Fin (9 / 10))"
proof -
  consider "classifyTable t = material_qty" | "classifyTable t = element_spec"
    | "classifyTable t = spec_elements"
    | "classifyTable t \<noteq> material_qty" "classifyTable t \<noteq> element_spec"
      "classifyTable t \<noteq> spec_elements"
    by blast
  then show ?thesis
  proof cases
    case 1
    then have "it \<in> set (extractMaterialQty numStr t)"
      using assms by (simp add: extractFromTable_def Let_def isExtractableCategory_def)
    then show ?thesis using 1 extractMaterialQty_item by blast
  next
    case 2
    then have "it \<in> set (extractElementSpec numStr t)"
      using assms by (simp add: extractFromTable_def Let_def isExtractableCategory_def)
    then show ?thesis using 2 extractElementSpec_item by blast
  next
    case 3
    then have "it \<in> set (extractSpecElements numStr t)"
      using assms by (simp add: extractFromTable_def Let_def isExtractableCategory_def)
    then show ?thesis using 3 extractSpecElements_item by blast
  next
    case 4
    then show ?thesis using assms extractFromTable_other by fastforce
  qed
qed

lemmas extract_eval = findColumnIndex_def cell_def cellTrim_def falsy_def orNull_def
  orEmpty_def buildSnippet_def gostAt_def gostTail_def GOST_CYR_def GOST_LAT_def
  isGostChar_def isDash_def isSectionLabel_def isLabelChar_def KW_ed_izm_def KW_ed_dot_def
  KW_opisanie_def KW_primechanie_def UNIT_SHT_def

lemma key_brick_ceramic:
  "generateCanonicalKey NAME_BRICK_CERAMIC = asc ''kirpich_keramicheskiy''"
  by (simp add: NAME_BRICK_CERAMIC_def canon_eval)

lemma gost_brick_ceramic: "extractGost NAME_BRICK_CERAMIC = None"
  by (simp add: NAME_BRICK_CERAMIC_def extract_eval canonicalize_def isAsciiLower_def)

lemma key_vr1: "generateCanonicalKey MARK_VR1 = asc ''vr_1''"
  by (simp add: MARK_VR1_def canon_eval)

lemma gost_vr1: "extractGost (MARK_VR1 @ [32]) = None"
  by (simp add: MARK_VR1_def extract_eval canonicalize_def isAsciiLower_def)

lemma classify_TABLE_BRICK: "classifyTable TABLE_BRICK = material_qty"
  by (simp add: TABLE_BRICK_def classify_eval)

lemma classify_TABLE_MARKS: "classifyTable TABLE_MARKS = element_spec"
  by (simp add: TABLE_MARKS_def classify_eval)

lemma classify_TABLE_CHANGES: "classifyTable TABLE_CHANGES = change_log"
  by (simp add: TABLE_CHANGES_def classify_eval)

lemma columns_TABLE_BRICK:
  "findColumnIndex (headers TABLE_BRICK) [KW_naimenovanie] = Some 0"
  "findColumnIndex (headers TABLE_BRICK) [KW_kolichestvo, KW_kol_vo, KW_kol] = Some 1"
  "findColumnIndex (headers TABLE_BRICK) [KW_ed_izm, KW_ed_dot, KW_ed] = Some 2"
  by (simp_all add: TABLE_BRICK_def findColumnIndex_def keyword_defs header_defs string_eval
      KW_ed_izm_def KW_ed_dot_def)

lemma columns_TABLE_MARKS:
  "findColumnIndex (headers TABLE_MARKS) [KW_marka] = Some 0"
  "findColumnIndex (headers TABLE_MARKS) [KW_opisanie, KW_naimenovanie] = None"
  "findColumnIndex (headers TABLE_MARKS) [KW_kol_vo, KW_kol, KW_sht] = Some 1"
  "findColumnIndex (headers TABLE_MARKS) [KW_primechanie] = None"
  by (simp_all add: TABLE_MARKS_def findColumnIndex_def keyword_defs header_defs string_eval
      KW_opisanie_def KW_primechanie_def)

lemma trim_examples:
  "trim NAME_BRICK_CERAMIC = NAME_BRICK_CERAMIC" "trim UNIT_SHT = UNIT_SHT"
  "trim MARK_VR1 = MARK_VR1"
  by (simp_all add: NAME_BRICK_CERAMIC_def UNIT_SHT_def MARK_VR1_def string_eval)

lemma label_brick_ceramic:
  "length NAME_BRICK_CERAMIC = 19" "NAME_BRICK_CERAMIC \<noteq> []" "UNIT_SHT \<noteq> []"
  "length MARK_VR1 = 4" "MARK_VR1 \<noteq> []"
  by (simp_all add: NAME_BRICK_CERAMIC_def UNIT_SHT_def MARK_VR1_def)

lemma parse_4: "parseRussianNumber (Some [52]) = Some (Fin 4)"
  by (simp add: number_eval string_eval)

lemma extract_TABLE_BRICK: "extractFromTable numStr TABLE_BRICK = [ITEM_BRICK numStr]"
proof -
  have "materialQtyRow numStr 0 (Some 1) (Some 2) [NAME_BRICK_CERAMIC, TEXT_1692_9, UNIT_SHT]
        = [ITEM_BRICK numStr]"
    by (simp add: materialQtyRow_def cell_def cellTrim_def falsy_def orNull_def orEmpty_def
        buildSnippet_def trim_examples label_brick_ceramic parse_1692_9 key_brick_ceramic
        gost_brick_ceramic ITEM_BRICK_def Let_def)
  then have "extractMaterialQty numStr TABLE_BRICK = [ITEM_BRICK numStr]"
    by (simp add: extractMaterialQty_def columns_TABLE_BRICK) (simp add: TABLE_BRICK_def)
  then show ?thesis
    by (simp add: extractFromTable_def classify_TABLE_BRICK isExtractableCategory_def)
qed

lemma extract_TABLE_MARKS: "extractFromTable numStr TABLE_MARKS = [ITEM_VR1 numStr]"
proof -
  have "elementSpecRow numStr (Some 0) None (Some 1) None
          [MARK_VR1, asc ''4'', [cy_k, cy_o, cy_m, cy_p, cy_l]] = [ITEM_VR1 numStr]"
    by (simp add: elementSpecRow_def cell_def cellTrim_def falsy_def orNull_def orEmpty_def
        buildSnippet_def trim_examples label_brick_ceramic parse_4 key_vr1 gost_vr1
        ITEM_VR1_def Let_def)
  then have "extractElementSpec numStr TABLE_MARKS = [ITEM_VR1 numStr]"
    by (simp add: extractElementSpec_def columns_TABLE_MARKS) (simp add: TABLE_MARKS_def)
  then show ?thesis
    by (simp add: extractFromTable_def classify_TABLE_MARKS isExtractableCategory_def)
qed

lemma extract_TABLE_CHANGES: "extractFromTable numStr TABLE_CHANGES = []"
  by (simp add: extractFromTable_def classify_TABLE_CHANGES isExtractableCategory_def)

text \<open>
  C7. \<open>ruleBasedExtract\<close> collects, table by table, the items of the tables of the
  block. A table that is classified neither \<open>material_qty\<close> nor \<open>element_spec\<close> nor
  \<open>spec_elements\<close> adds no item. Every item comes from a table of the block of one of
  these categories: from a \<open>material_qty\<close> table it has the confidence 0.95 and its
  unit is the cell of its row in the unit column (\<open>null\<close> when that is absent); from an
  \<open>element_spec\<close> or \<open>spec_elements\<close> table it has the unit \<open>sht\<close> and the confidence
  0.9.
\<close>

theorem rule_based_items:
  "ruleBasedExtract numStr block = concat (map (extractFromTable numStr) (tables block)) \<and>
   (classifyTable t \<noteq> material_qty \<and> classifyTable t \<noteq> element_spec \<and>
    classifyTable t \<noteq> spec_elements \<longrightarrow> extractFromTable numStr t = []) \<and>
   (\<forall>it \<in> set (ruleBasedExtract numStr block).
      \<exists>tb \<in> set (tables block). it \<in> set (extractFromTable numStr tb) \<and>
        ((classifyTable tb = material_qty \<and> confidence it = Fin (95 / 100) \<and>
           (\<exists>row \<in> set (rows tb). unit it = unitColumnCell (headers tb) row)) \<or>
         ((classifyTable tb = element_spec \<or> classifyTable tb = spec_elements) \<and>
           unit it = Some UNIT_SHT \<and> confidence it = Fin (9 / 10))))"
proof -
  have "\<exists>tb \<in> set (tables block). it \<in> set (extractFromTable numStr tb) \<and>
        ((classifyTable tb = material_qty \<and> confidence it = Fin (95 / 100) \<and>
           (\<exists>row \<in> set (rows tb). unit it = unitColumnCell (headers tb) row)) \<or>
         ((classifyTable tb = element_spec \<or> classifyTable tb = spec_elements) \<and>
           unit it = Some UNIT_SHT \<and> confidence it = Fin (9 / 10)))"
    if "it \<in> set (ruleBasedExtract numStr block)" for it
  proof -
    from that obtain tb where tb: "tb \<in> set (tables block)"
      "it \<in> set (extractFromTable numStr tb)"
      by (auto simp: ruleBasedExtract_def)
    then show ?thesis using extractFromTable_item[OF tb(2)] by blast
  qed
  then show ?thesis
    using extractFromTable_other[of t numStr] by (simp add: ruleBasedExtract_def)
qed

theorem rule_based_items_witness:
  "ruleBasedExtract (\<lambda>q. [])
     \<lparr>uid = asc ''A-B-C'', type = TEXT, content = [], hasTable = True, hasError = False,
      errorText = None, sectionTitle = None,
      tables = [TABLE_BRICK, TABLE_CHANGES, TABLE_MARKS]\<rparr>
   = [ITEM_BRICK (\<lambda>q. []), ITEM_VR1 (\<lambda>q. [])] \<and>
   unit (ITEM_BRICK (\<lambda>q. [])) = unitColumnCell (headers TABLE_BRICK) (hd (rows TABLE_BRICK)) \<and>
   confidence (ITEM_BRICK (\<lambda>q. [])) = Fin (95 / 100) \<and>
   unit (ITEM_VR1 (\<lambda>q. [])) = Some UNIT_SHT \<and>
   confidence (ITEM_VR1 (\<lambda>q. [])) = Fin (9 / 10) \<and>
   extractFromTable (\<lambda>q. []) TABLE_CHANGES = []"
proof -
  have u: "unitColumnCell (headers TABLE_BRICK) (hd (rows TABLE_BRICK)) = Some UNIT_SHT"
    by (simp add: unitColumnCell_def columns_TABLE_BRICK)
      (simp add: TABLE_BRICK_def cellTrim_def cell_def orNull_def falsy_def trim_examples
        label_brick_ceramic)
  have c: "classifyTable TABLE_CHANGES \<noteq> material_qty \<and>
      classifyTable TABLE_CHANGES \<noteq> element_spec \<and>
      classifyTable TABLE_CHANGES \<noteq> spec_elements"
    by (simp add: classify_TABLE_CHANGES)
  show ?thesis
    using rule_based_items[of "\<lambda>q. []"
        "\<lparr>uid = asc ''A-B-C'', type = TEXT, content = [], hasTable = True, hasError = False,
          errorText = None, sectionTitle = None,
          tables = [TABLE_BRICK, TABLE_CHANGES, TABLE_MARKS]\<rparr>" TABLE_CHANGES] c u
    by (simp add: extract_TABLE_BRICK extract_TABLE_CHANGES extract_TABLE_MARKS
        ITEM_BRICK_def ITEM_VR1_def)
qed

section \<open>Properties of the parser: pages\<close>

lemma lineStep_no_marker:
  assumes "\<not> isMarker l"
  shows "lineStep initialState l = initialState"
proof -
  have "pageMatch l = None" "blockMatch l = None"
    using assms unfolding isMarker_def by blast+
  then show ?thesis
    by (simp add: lineStep_def metadataStep_def blockStep_def initialState_def)
qed

lemma foldl_no_marker:
  "\<forall>l \<in> set ls. \<not> isMarker l \<Longrightarrow> foldl lineStep initialState ls = initialState"
  by (induction ls) (simp_all add: lineStep_no_marker)

lemma scanLines_no_marker:
  "\<forall>l \<in> set ls. \<not> isMarker l \<Longrightarrow> scanLines ls = []"
  by (simp add: scanLines_def foldl_no_marker)
    (simp add: finalizePage_def finalizeBlock_def initialState_def)










lemma pages_parseDocument:
  "pages (parseDocument s) =
     (if scanLines (splitOn 10 s) = [] then [fallbackPage s] else scanLines (splitOn 10 s))"
  by (simp add: parseDocument_def Let_def)


lemmas parser_eval = lineStep_def metadataStep_def blockStep_def
  finalizePage_def finalizeBlock_def initialState_def fallbackPage_def lastLabel_def
  buildBlock_def parseTables_def parseMarkdownTable_def splitTableRow_def
  stripLeadingBar_def stripTrailingBar_def sectionMatch_def captureAfterSpace_def
  labelMatch_def pageMatch_def blockMatch_def uidMatch_def isUidChar_def isTableRow_def
  isTableSeparator_def isSepChar_def noLineTerminator_def isLineTerminator_def
  PAGE_PREFIX_def SHEET_LABEL_def SHEET_NAME_def STAMP_LABEL_def GENERATED_LABEL_def
  ERROR_OPEN_def docCodeAt_def isCodeLetter_def digitsVal_def isDigit_def isAsciiLower_def






section \<open>Properties of the routing\<close>

lemma foldl_invariant:
  assumes "P s" and "\<And>s x. x \<in> set xs \<Longrightarrow> P s \<Longrightarrow> P (f s x)"
  shows "P (foldl f s xs)"
  using assms by (induction xs arbitrary: s) auto

lemma mapSet_set: "set (mapSet k v kvs) \<subseteq> insert (k, v) (set kvs)"
  by (induction kvs) (auto split: if_splits)

lemma routeBlock_skip:
  "hasError blk \<or> type blk = IMAGE \<Longrightarrow> routeBlock numStr db pno st blk = st"
  by (auto simp: routeBlock_def)

lemma routeBlock_llm:
  assumes "x \<in> set (blocksNeedingLlm (routeBlock numStr db pno st blk))"
  shows "x \<in> set (blocksNeedingLlm st) \<or>
         (bfe_block x = blk \<and> \<not> hasError blk \<and> type blk = TEXT)"
  using assms
  by (auto simp: routeBlock_def Let_def split: if_splits)

lemma routeBlock_rule:
  assumes "(k, items) \<in> set (ruleBasedResults (routeBlock numStr db pno st blk))"
  shows "(k, items) \<in> set (ruleBasedResults st) \<or>
         (\<not> hasError blk \<and> type blk = TEXT \<and> hasTable blk \<and> db (uid blk) = Some k \<and>
          items = ruleBasedExtract numStr blk)"
proof (cases "hasError blk \<or> type blk \<noteq> TEXT \<or> falsy (db (uid blk)) \<or> \<not> hasTable blk")
  case True
  then have "ruleBasedResults (routeBlock numStr db pno st blk) = ruleBasedResults st"
    by (auto simp: routeBlock_def Let_def)
  then show ?thesis using assms by simp
next
  case False
  then obtain d where d: "db (uid blk) = Some d" by (auto simp: falsy_def)
  have "set (ruleBasedResults (routeBlock numStr db pno st blk))
        \<subseteq> insert (d, ruleBasedExtract numStr blk) (set (ruleBasedResults st))"
    using False d mapSet_set[of d "ruleBasedExtract numStr blk" "ruleBasedResults st"]
    by (auto simp: routeBlock_def Let_def orEmpty_def)
  then show ?thesis using assms False d by auto
qed

lemma routedOk_routeBlock:
  assumes "routedOk numStr db B st" and "blk \<in> B"
  shows "routedOk numStr db B (routeBlock numStr db pno st blk)"
proof -
  have 1: "bfe_block x \<in> B \<and> \<not> hasError (bfe_block x) \<and> type (bfe_block x) = TEXT"
    if "x \<in> set (blocksNeedingLlm (routeBlock numStr db pno st blk))" for x
    using that routeBlock_llm assms unfolding routedOk_def by blast
  have 2: "\<exists>b \<in> B. \<not> hasError b \<and> type b = TEXT \<and> hasTable b \<and> db (uid b) = Some k \<and>
          items = ruleBasedExtract numStr b"
    if kv: "(k, items) \<in> set (ruleBasedResults (routeBlock numStr db pno st blk))"
    for k items
  proof -
    have "(k, items) \<in> set (ruleBasedResults st) \<or>
         (\<not> hasError blk \<and> type blk = TEXT \<and> hasTable blk \<and> db (uid blk) = Some k \<and>
          items = ruleBasedExtract numStr blk)"
      using kv by (rule routeBlock_rule)
    then show ?thesis
      using assms unfolding routedOk_def by blast
  qed
  show ?thesis
    unfolding routedOk_def using 1 2 by blast
qed

lemma routedOk_selectBlocks:
  "routedOk numStr db (\<Union>p \<in> set (pages doc). set (blocks p)) (selectBlocks numStr db doc)"
  unfolding selectBlocks_def
proof (rule foldl_invariant)
  show "routedOk numStr db (\<Union>p \<in> set (pages doc). set (blocks p))
          \<lparr>ruleBasedResults = [], blocksNeedingLlm = []\<rparr>"
    by (simp add: routedOk_def)
next
  fix s p
  assume p: "p \<in> set (pages doc)"
    and s: "routedOk numStr db (\<Union>p \<in> set (pages doc). set (blocks p)) s"
  show "routedOk numStr db (\<Union>p \<in> set (pages doc). set (blocks p)) (routePage numStr db s p)"
    unfolding routePage_def
  proof (rule foldl_invariant)
    show "routedOk numStr db (\<Union>p \<in> set (pages doc). set (blocks p)) s" by (rule s)
  next
    fix s' b
    assume "b \<in> set (blocks p)"
      and "routedOk numStr db (\<Union>p \<in> set (pages doc). set (blocks p)) s'"
    then show "routedOk numStr db (\<Union>p \<in> set (pages doc). set (blocks p))
        (routeBlock numStr db (pageNo p) s' b)"
      using p by (intro routedOk_routeBlock) auto
  qed
qed

text \<open>
  C9. A block whose \<open>hasError\<close> flag is set, and a block of type IMAGE, is passed
  over by the loop of \<open>runExtraction\<close>: the loop leaves both collections as they are,
  whatever the tables and the content of the block. So every block on the list for the
  LLM gateway is a TEXT block of the document without the error flag, and every entry
  of the rule-based results is the extraction of such a block.
\<close>

theorem error_and_image_blocks_excluded:
  "(hasError blk \<or> type blk = IMAGE \<longrightarrow> routeBlock numStr db pno st blk = st) \<and>
   (\<forall>x \<in> set (blocksNeedingLlm (selectBlocks numStr db doc)).
      bfe_block x \<in> (\<Union>p \<in> set (pages doc). set (blocks p)) \<and>
      \<not> hasError (bfe_block x) \<and> type (bfe_block x) = TEXT) \<and>
   (\<forall>(k, items) \<in> set (ruleBasedResults (selectBlocks numStr db doc)).
      \<exists>b \<in> (\<Union>p \<in> set (pages doc). set (blocks p)).
        \<not> hasError b \<and> type b = TEXT \<and> hasTable b \<and> db (uid b) = Some k \<and>
        items = ruleBasedExtract numStr b)"
  using routeBlock_skip[of blk numStr db pno st] routedOk_selectBlocks[of numStr db doc]
  unfolding routedOk_def by blast

theorem error_and_image_blocks_excluded_witness:
  "hasError BLOCK_BRICK_ERROR \<and> tables BLOCK_BRICK_ERROR = [TABLE_BRICK] \<and>
   type BLOCK_IMAGE_QTY = IMAGE \<and> hasQuantityPattern (content BLOCK_IMAGE_QTY) \<and>
   routeBlock (\<lambda>q. []) (\<lambda>u. Some (asc ''id'')) 1
     \<lparr>ruleBasedResults = [], blocksNeedingLlm = []\<rparr> BLOCK_BRICK_ERROR
     = \<lparr>ruleBasedResults = [], blocksNeedingLlm = []\<rparr> \<and>
   routeBlock (\<lambda>q. []) (\<lambda>u. Some (asc ''id'')) 1
     \<lparr>ruleBasedResults = [], blocksNeedingLlm = []\<rparr> BLOCK_IMAGE_QTY
     = \<lparr>ruleBasedResults = [], blocksNeedingLlm = []\<rparr> \<and>
   selectBlocks (\<lambda>q. []) (\<lambda>u. Some (asc ''id'')) DOC_EXCLUDED
     = \<lparr>ruleBasedResults = [], blocksNeedingLlm = []\<rparr>"
proof -
  have a: "hasError BLOCK_BRICK_ERROR" "tables BLOCK_BRICK_ERROR = [TABLE_BRICK]"
    "type BLOCK_IMAGE_QTY = IMAGE"
    by (simp_all add: BLOCK_BRICK_ERROR_def BLOCK_BRICK_def BLOCK_IMAGE_QTY_def)
  have q: "hasQuantityPattern (content BLOCK_IMAGE_QTY)"
    by (simp add: BLOCK_IMAGE_QTY_def UNIT_SHT_def quantityPatternAt_def QUANTITY_UNITS_def
        isDigit_def isWhiteSpace_def canonicalize_def isAsciiLower_def)
  have r1: "routeBlock (\<lambda>q. []) (\<lambda>u. Some (asc ''id'')) 1
     \<lparr>ruleBasedResults = [], blocksNeedingLlm = []\<rparr> BLOCK_BRICK_ERROR
     = \<lparr>ruleBasedResults = [], blocksNeedingLlm = []\<rparr>"
    using error_and_image_blocks_excluded[of BLOCK_BRICK_ERROR] a by blast
  have r2: "routeBlock (\<lambda>q. []) (\<lambda>u. Some (asc ''id'')) 1
     \<lparr>ruleBasedResults = [], blocksNeedingLlm = []\<rparr> BLOCK_IMAGE_QTY
     = \<lparr>ruleBasedResults = [], blocksNeedingLlm = []\<rparr>"
    using error_and_image_blocks_excluded[of BLOCK_IMAGE_QTY] a by blast
  have "selectBlocks (\<lambda>q. []) (\<lambda>u. Some (asc ''id'')) DOC_EXCLUDED
     = \<lparr>ruleBasedResults = [], blocksNeedingLlm = []\<rparr>"
    using r1 r2 by (simp add: selectBlocks_def routePage_def DOC_EXCLUDED_def)
  then show ?thesis using a q r1 r2 by blast
qed

section \<open>The end-to-end scenario\<close>

lemmas example_strings = ROW_HEADER_def ROW_DATA_def LINE_PAGE_1_def LINE_BLOCK_TEXT_def
  header_defs NAME_BRICK_CERAMIC_def TEXT_1692_9_def UNIT_SHT_def

lemma lines_DOC_BRICK:
  "splitOn 10 DOC_BRICK = [LINE_PAGE_1, LINE_BLOCK_TEXT, ROW_HEADER, ROW_DATA]"
  by (simp add: DOC_BRICK_def PAGE_PREFIX_def example_strings)

lemma build_BLOCK_BRICK:
  "buildBlock (asc ''AAA-BBB-CCC'') TEXT [ROW_HEADER, ROW_DATA] = BLOCK_BRICK"
  by (simp add: parser_eval string_eval BLOCK_BRICK_def TABLE_BRICK_def example_strings Let_def)

lemma line_facts_page:
  "pageMatch LINE_PAGE_1 = Some (asc ''1'')" "pageMatch LINE_BLOCK_TEXT = None"
  "pageMatch ROW_HEADER = None" "pageMatch ROW_DATA = None"
  by (simp_all add: pageMatch_def PAGE_PREFIX_def isDigit_def example_strings)

lemma line_facts_block:
  "blockMatch LINE_BLOCK_TEXT = Some (TEXT, asc ''AAA-BBB-CCC'')"
  "blockMatch ROW_HEADER = None" "blockMatch ROW_DATA = None"
  by (simp_all add: blockMatch_def uidMatch_def isUidChar_def isDigit_def isAsciiUpper_def
      isWhiteSpace_def example_strings)

lemma line_facts_label:
  "labelMatch SHEET_LABEL LINE_BLOCK_TEXT = None"
  "labelMatch SHEET_NAME LINE_BLOCK_TEXT = None"
  "labelMatch lb LINE_BLOCK_TEXT = (if prefix lb LINE_BLOCK_TEXT then
      captureAfterSpace (drop (length lb) LINE_BLOCK_TEXT) else None)"
  by (simp_all add: labelMatch_def SHEET_LABEL_def SHEET_NAME_def example_strings)

lemma meta_DOC_BRICK:
  "lastLabel GENERATED_LABEL [LINE_BLOCK_TEXT, ROW_HEADER, ROW_DATA] = None"
  "lastLabel STAMP_LABEL [LINE_BLOCK_TEXT, ROW_HEADER, ROW_DATA] = None"
  by (simp_all add: lastLabel_def labelMatch_def GENERATED_LABEL_def STAMP_LABEL_def
      example_strings)

lemma title_DOC_BRICK: "\<not> prefix [35, 32] LINE_PAGE_1"
  by (simp add: LINE_PAGE_1_def PAGE_PREFIX_def)

lemma trim_LINE_BLOCK_TEXT: "trim LINE_BLOCK_TEXT \<noteq> []"
  by (simp add: LINE_BLOCK_TEXT_def string_eval)

lemma digits_1: "digitsVal [49] = 1"
  by (simp add: digitsVal_def)

lemma scan_DOC_BRICK:
  "scanLines [LINE_PAGE_1, LINE_BLOCK_TEXT, ROW_HEADER, ROW_DATA] =
     [\<lparr>pageNo = 1, sheetLabel = None, sheetName = None, blocks = [BLOCK_BRICK]\<rparr>]"
  using build_BLOCK_BRICK
  by (simp add: scanLines_def lineStep_def metadataStep_def blockStep_def finalizePage_def
      finalizeBlock_def initialState_def line_facts_page line_facts_block
      line_facts_label(1,2) trim_LINE_BLOCK_TEXT digits_1 Let_def)

lemma parse_DOC_BRICK:
  "parseDocument DOC_BRICK =
     \<lparr>title = [], generated = None, stampText = None, docCode = None,
      pages = [\<lparr>pageNo = 1, sheetLabel = None, sheetName = None, blocks = [BLOCK_BRICK]\<rparr>],
      totalBlocks = 1, errorBlocks = 0\<rparr>"
  by (simp add: parseDocument_def lines_DOC_BRICK scan_DOC_BRICK meta_DOC_BRICK
      title_DOC_BRICK Let_def BLOCK_BRICK_def)

lemma rule_BLOCK_BRICK: "ruleBasedExtract numStr BLOCK_BRICK = [ITEM_BRICK numStr]"
  by (simp add: ruleBasedExtract_def BLOCK_BRICK_def extract_TABLE_BRICK)

lemma route_BLOCK_BRICK:
  assumes "blockUidToDbId (asc ''AAA-BBB-CCC'') = Some dbId" and "dbId \<noteq> []"
  shows "routeBlock numStr blockUidToDbId 1 \<lparr>ruleBasedResults = [], blocksNeedingLlm = []\<rparr>
           BLOCK_BRICK
         = \<lparr>ruleBasedResults = [(dbId, [ITEM_BRICK numStr])], blocksNeedingLlm = []\<rparr>"
proof -
  have u: "uid BLOCK_BRICK = asc ''AAA-BBB-CCC''" "hasError BLOCK_BRICK = False"
    "type BLOCK_BRICK = TEXT" "hasTable BLOCK_BRICK = True" "tables BLOCK_BRICK = [TABLE_BRICK]"
    by (simp_all add: BLOCK_BRICK_def)
  show ?thesis
    using assms
    by (simp add: routeBlock_def u rule_BLOCK_BRICK falsy_def orEmpty_def Let_def
        classify_TABLE_BRICK needsLlmCategory_def)
qed

text \<open>
  C1. The document of one page with one TEXT block that holds the table with the
  header row \<open>Naimenovanie | Kolichestvo | Ed.izm.\<close> and the data row
  \<open>Kirpich keramicheskij | 1 692,9 | sht\<close> is parsed into one page with one block
  with one table; the table is classified \<open>material_qty\<close>; the rule-based extraction
  of the block gives exactly one item, with the quantity 1692.9, the unit \<open>sht\<close> and
  the confidence 0.95; and when the block has a database id, the routing records that
  item for the block and puts no block on the list for the LLM gateway.
\<close>

theorem end_to_end_brick:
  assumes "blockUidToDbId (asc ''AAA-BBB-CCC'') = Some dbId" and "dbId \<noteq> []"
  shows
    "pages (parseDocument DOC_BRICK) =
       [\<lparr>pageNo = 1, sheetLabel = None, sheetName = None, blocks = [BLOCK_BRICK]\<rparr>] \<and>
     type BLOCK_BRICK = TEXT \<and> tables BLOCK_BRICK = [TABLE_BRICK] \<and>
     classifyTable TABLE_BRICK = material_qty \<and>
     ruleBasedExtract numStr BLOCK_BRICK = [ITEM_BRICK numStr] \<and>
     quantity (ITEM_BRICK numStr) = Some (Fin (16929 / 10)) \<and>
     unit (ITEM_BRICK numStr) = Some UNIT_SHT \<and>
     confidence (ITEM_BRICK numStr) = Fin (95 / 100) \<and>
     selectBlocks numStr blockUidToDbId (parseDocument DOC_BRICK) =
       \<lparr>ruleBasedResults = [(dbId, [ITEM_BRICK numStr])], blocksNeedingLlm = []\<rparr>"
proof -
  have "selectBlocks numStr blockUidToDbId (parseDocument DOC_BRICK) =
       \<lparr>ruleBasedResults = [(dbId, [ITEM_BRICK numStr])], blocksNeedingLlm = []\<rparr>"
    using route_BLOCK_BRICK[of blockUidToDbId dbId numStr] assms
    by (simp add: selectBlocks_def routePage_def parse_DOC_BRICK)
  then show ?thesis
    by (simp add: parse_DOC_BRICK classify_TABLE_BRICK rule_BLOCK_BRICK)
      (simp add: BLOCK_BRICK_def ITEM_BRICK_def)
qed

theorem end_to_end_brick_witness:
  "selectBlocks (\<lambda>q. []) (\<lambda>u. if u = asc ''AAA-BBB-CCC'' then Some (asc ''id-1'') else None)
     (parseDocument DOC_BRICK) =
     \<lparr>ruleBasedResults = [(asc ''id-1'', [ITEM_BRICK (\<lambda>q. [])])], blocksNeedingLlm = []\<rparr>"
  using end_to_end_brick[of "\<lambda>u. if u = asc ''AAA-BBB-CCC'' then Some (asc ''id-1'') else None"
      "asc ''id-1''" "\<lambda>q. []"]
  by simp

section \<open>Properties of the parser: the flags of a block\<close>

lemma splitOn_not_Nil: "splitOn sep s \<noteq> []"
  by (induction s) (auto split: list.splits)

lemma splitOn_no_sep: "l \<in> set (splitOn sep s) \<Longrightarrow> sep \<notin> set l"
proof (induction s arbitrary: l)
  case Nil
  then show ?case by simp
next
  case (Cons c s)
  show ?case
  proof (cases "c = sep")
    case True
    then show ?thesis using Cons by auto
  next
    case False
    obtain x xs where x: "splitOn sep s = x # xs"
      using splitOn_not_Nil[of sep s] by (cases "splitOn sep s") auto
    then have "l = c # x \<or> l \<in> set xs" using Cons.prems False by simp
    then show ?thesis using Cons.IH x False by auto
  qed
qed

lemma splitOn_single: "sep \<notin> set l \<Longrightarrow> splitOn sep l = [l]"
  by (induction l) auto

lemma splitOn_append: "splitOn sep (p @ sep # r) = splitOn sep p @ splitOn sep r"
proof (induction p)
  case Nil
  then show ?case by simp
next
  case (Cons c p)
  obtain x xs where x: "splitOn sep p = x # xs"
    using splitOn_not_Nil[of sep p] by (cases "splitOn sep p") auto
  show ?case using Cons x by simp
qed

lemma lineOf_splitOn:
  assumes "lineOf l s"
  shows "l \<in> set (splitOn 10 s)"
proof -
  from assms obtain p q where s: "s = p @ l @ q" and l: "10 \<notin> set l"
    and p: "p = [] \<or> last p = 10" and q: "q = [] \<or> hd q = 10"
    unfolding lineOf_def by blast
  have lq: "l \<in> set (splitOn 10 (l @ q))"
  proof (cases q)
    case Nil
    then show ?thesis using l by (simp add: splitOn_single)
  next
    case (Cons c q')
    then have "c = 10" using q by simp
    then show ?thesis using Cons l by (simp add: splitOn_append splitOn_single)
  qed
  show ?thesis
  proof (cases "p = []")
    case True
    then show ?thesis using lq s by simp
  next
    case False
    then obtain p0 where "p = p0 @ [10]"
      using p by (metis append_butlast_last_id)
    then have "s = p0 @ 10 # (l @ q)" using s by simp
    then show ?thesis using lq by (simp add: splitOn_append)
  qed
qed

lemma lineOf_join:
  "l \<in> set ls \<Longrightarrow> \<forall>x \<in> set ls. 10 \<notin> set x \<Longrightarrow> lineOf l (join [10] ls)"
proof (induction ls rule: induct_list012)
  case 1
  then show ?case by simp
next
  case (2 x)
  then have "join [10] [x] = [] @ l @ []" by simp
  then show ?case using 2 unfolding lineOf_def by blast
next
  case (3 x y zs)
  show ?case
  proof (cases "l = x")
    case True
    have "join [10] (x # y # zs) = [] @ l @ (10 # join [10] (y # zs))"
      using True by simp
    moreover have "10 \<notin> set l" using 3 True by simp
    ultimately show ?thesis unfolding lineOf_def by (metis list.sel(1))
  next
    case False
    then have "l \<in> set (y # zs)" using 3 by simp
    then have "lineOf l (join [10] (y # zs))" using 3 by simp
    then obtain p q where j: "join [10] (y # zs) = p @ l @ q" and l: "10 \<notin> set l"
      and p: "p = [] \<or> last p = 10" and q: "q = [] \<or> hd q = 10"
      unfolding lineOf_def by blast
    have e: "join [10] (x # y # zs) = (x @ 10 # p) @ l @ q" using j by simp
    have "last (x @ 10 # p) = 10" using p by (cases "p = []") auto
    then show ?thesis
      unfolding lineOf_def using e l q by blast
  qed
qed


lemma lineOf_dropWhile:
  assumes "lineOf l s" and "l \<noteq> []" and "\<not> isWhiteSpace (hd l)"
  shows "lineOf l (dropWhile isWhiteSpace s)"
proof -
  from assms(1) obtain p q where s: "s = p @ l @ q" and l: "10 \<notin> set l"
    and p: "p = [] \<or> last p = 10" and q: "q = [] \<or> hd q = 10"
    unfolding lineOf_def by blast
  have lq: "dropWhile isWhiteSpace (l @ q) = l @ q"
    using assms(2,3) by (cases l) auto
  show ?thesis
  proof (cases "\<forall>c \<in> set p. isWhiteSpace c")
    case True
    then have "dropWhile isWhiteSpace s = [] @ l @ q"
      using s lq by (simp add: dropWhile_append2)
    then show ?thesis unfolding lineOf_def using l q by blast
  next
    case False
    then have d: "dropWhile isWhiteSpace s = dropWhile isWhiteSpace p @ l @ q"
      using s by (auto simp: dropWhile_append1)
    have ne: "dropWhile isWhiteSpace p \<noteq> []" using False by auto
    then have "p \<noteq> []" by auto
    then have "last p = 10" using p by simp
    moreover have "last (dropWhile isWhiteSpace p) = last p"
      using ne by (metis takeWhile_dropWhile_id last_appendR)
    ultimately have "last (dropWhile isWhiteSpace p) = 10" by simp
    then show ?thesis unfolding lineOf_def using d l q by blast
  qed
qed

lemma lineOf_rev: "lineOf l s \<Longrightarrow> lineOf (rev l) (rev s)"
proof -
  assume "lineOf l s"
  then obtain p q where s: "s = p @ l @ q" and l: "10 \<notin> set l"
    and p: "p = [] \<or> last p = 10" and q: "q = [] \<or> hd q = 10"
    unfolding lineOf_def by blast
  have "rev s = rev q @ rev l @ rev p" using s by simp
  moreover have "10 \<notin> set (rev l)" using l by simp
  moreover have "rev q = [] \<or> last (rev q) = 10" using q by (cases q) auto
  moreover have "rev p = [] \<or> hd (rev p) = 10" using p by (auto simp: hd_rev)
  ultimately show ?thesis unfolding lineOf_def by blast
qed

lemma lineOf_trim:
  assumes "lineOf l s" and "l \<noteq> []" and "\<not> isWhiteSpace (hd l)" and "\<not> isWhiteSpace (last l)"
  shows "lineOf l (trim s)"
proof -
  have a: "lineOf l (dropWhile isWhiteSpace s)"
    using assms(1,2,3) by (rule lineOf_dropWhile)
  have "lineOf (rev l) (rev (dropWhile isWhiteSpace s))" using a by (rule lineOf_rev)
  then have "lineOf (rev l) (dropWhile isWhiteSpace (rev (dropWhile isWhiteSpace s)))"
    using assms(2,4) by (intro lineOf_dropWhile) (simp_all add: hd_rev)
  then have "lineOf (rev (rev l)) (rev (dropWhile isWhiteSpace (rev (dropWhile isWhiteSpace s))))"
    by (rule lineOf_rev)
  then show ?thesis by (simp add: trim_def trimStart_def trimEnd_def)
qed

lemma isTableRow_ends:
  "isTableRow l \<Longrightarrow> l \<noteq> [] \<and> \<not> isWhiteSpace (hd l) \<and> \<not> isWhiteSpace (last l)"
  by (auto simp: isTableRow_def isWhiteSpace_def)

lemma row_in_trimmed_content:
  assumes "list_ex isTableRow ls" and "\<forall>x \<in> set ls. 10 \<notin> set x"
  shows "list_ex isTableRow (splitOn 10 (trim (join [10] ls)))"
proof -
  from assms(1) obtain l where l: "l \<in> set ls" "isTableRow l"
    by (auto simp: list_ex_iff)
  have "lineOf l (join [10] ls)" using l(1) assms(2) by (rule lineOf_join)
  then have "lineOf l (trim (join [10] ls))"
    using isTableRow_ends[OF l(2)] by (intro lineOf_trim) simp_all
  then have "l \<in> set (splitOn 10 (trim (join [10] ls)))" by (rule lineOf_splitOn)
  then show ?thesis using l(2) by (auto simp: list_ex_iff)
qed

lemma errorMatch_sound: "errorMatch s = Some m \<Longrightarrow> isErrorMarker m \<and> sublist m s"
proof (induction s)
  case Nil
  then show ?case by simp
next
  case (Cons c cs)
  let ?r = "drop (length ERROR_OPEN) (c # cs)"
  let ?d = "dropWhile (\<lambda>x. x \<noteq> 93) ?r"
  let ?t = "takeWhile (\<lambda>x. x \<noteq> 93) ?r"
  show ?case
  proof (cases "prefix ERROR_OPEN (c # cs) \<and> ?d \<noteq> []")
    case True
    then have m: "m = ERROR_OPEN @ ?t @ [93]"
      using Cons.prems by simp
    have e: "c # cs = ERROR_OPEN @ ?r"
      using True by (auto simp: prefix_def)
    have "hd ?d = 93"
      using True hd_dropWhile[of "\<lambda>x. x \<noteq> 93" ?r] by simp
    then have "?d = 93 # tl ?d"
      using True by (cases ?d) auto
    moreover have "?r = ?t @ ?d" by simp
    ultimately have "?r = ?t @ 93 # tl ?d" by simp
    then have "c # cs = [] @ m @ tl ?d"
      using e m by (metis append.assoc append_Cons append_Nil)
    then have sub: "sublist m (c # cs)" unfolding sublist_def by blast
    have "93 \<notin> set ?t"
      by (auto dest: set_takeWhileD)
    then have "isErrorMarker m"
      unfolding isErrorMarker_def m by (simp add: butlast_append)
    then show ?thesis using sub by simp
  next
    case False
    then have "errorMatch cs = Some m" using Cons.prems by auto
    then have "isErrorMarker m \<and> sublist m cs" by (rule Cons.IH)
    then show ?thesis by (simp add: sublist_Cons_right)
  qed
qed

lemma blockOk_buildBlock:
  assumes "\<forall>x \<in> set ls. 10 \<notin> set x"
  shows "blockOk (buildBlock u ty ls)"
proof -
  have 1: "list_ex isTableRow ls \<longrightarrow> list_ex isTableRow (splitOn 10 (trim (join [10] ls)))"
    using row_in_trimmed_content assms by blast
  have 2: "errorMatch (trim (join [10] ls)) \<noteq> None \<longrightarrow>
      (\<exists>m. isErrorMarker m \<and> sublist m (trim (join [10] ls)))"
    using errorMatch_sound by fastforce
  show ?thesis
    using 1 2 by (simp add: blockOk_def buildBlock_def Let_def)
qed

lemma isTableRow_no_feed: "isTableRow s \<Longrightarrow> 10 \<notin> set s"
proof
  assume r: "isTableRow s" and a: "10 \<in> set s"
  have len: "2 \<le> length (tl s)" using r by (simp add: isTableRow_def)
  have ne: "s \<noteq> []" "hd s = 124" "last s = 124"
    using r by (auto simp: isTableRow_def)
  have "tl s \<noteq> []" using len by (metis list.size(3) not_numeral_le_zero)
  note ne = ne this
  have "last (tl s) = 124" using ne by (simp add: last_tl)
  then have "tl s = butlast (tl s) @ [124]" using ne by (metis append_butlast_last_id)
  then have "s = 124 # butlast (tl s) @ [124]" using ne by (metis hd_Cons_tl)
  then have "set s = insert 124 (set (butlast (tl s)))"
    by (metis Un_insert_right insert_absorb2 list.simps(15) set_append sup_bot.right_neutral
        empty_set)
  then have "10 \<in> set (butlast (tl s))" using a by simp
  then show False
    using r by (auto simp: isTableRow_def noLineTerminator_def list_all_iff
        isLineTerminator_def)
qed

lemma blockOk_fallback: "b \<in> set (blocks (fallbackPage s)) \<Longrightarrow> blockOk b"
proof -
  have "list_ex isTableRow (splitOn 10 s)" if "isTableRow s"
    using that isTableRow_no_feed[OF that] by (simp add: splitOn_single)
  moreover have "errorMatch s \<noteq> None \<longrightarrow> (\<exists>m. isErrorMarker m \<and> sublist m s)"
    using errorMatch_sound by fastforce
  ultimately show "b \<in> set (blocks (fallbackPage s)) \<Longrightarrow> blockOk b"
    by (auto simp: fallbackPage_def blockOk_def)
qed


lemma stateOk_initial: "stateOk initialState"
  by (simp add: stateOk_def initialState_def)

lemma stateOk_finalizeBlock: "stateOk st \<Longrightarrow> stateOk (finalizeBlock st)"
proof -
  assume ok: "stateOk st"
  show ?thesis
  proof (cases "currentBlock st")
    case None
    then show ?thesis using ok by (simp add: finalizeBlock_def)
  next
    case (Some ob)
    show ?thesis
    proof (cases "currentPage st")
      case None
      then show ?thesis using ok Some by (simp add: finalizeBlock_def)
    next
      case (Some p)
      have "blockOk (buildBlock (ob_uid ob) (ob_type ob) (ob_lines ob))"
        using ok \<open>currentBlock st = Some ob\<close>
        by (intro blockOk_buildBlock) (simp add: stateOk_def)
      then show ?thesis
        using ok Some \<open>currentBlock st = Some ob\<close>
        by (auto simp: finalizeBlock_def stateOk_def)
    qed
  qed
qed

lemma stateOk_finalizePage: "stateOk st \<Longrightarrow> stateOk (finalizePage st)"
proof -
  assume "stateOk st"
  then have ok: "stateOk (finalizeBlock st)" by (rule stateOk_finalizeBlock)
  show ?thesis
  proof (cases "currentPage (finalizeBlock st)")
    case None
    then show ?thesis using ok by (simp add: finalizePage_def Let_def stateOk_def)
  next
    case (Some p)
    then show ?thesis using ok by (simp add: finalizePage_def Let_def stateOk_def)
  qed
qed

lemma stateOk_blockStep:
  assumes "stateOk st" and "10 \<notin> set l"
  shows "stateOk (blockStep st l)"
proof (cases "blockMatch l")
  case None
  then show ?thesis
    using assms by (auto simp: blockStep_def stateOk_def split: option.splits)
next
  case (Some tu)
  obtain ty u where tu: "tu = (ty, u)" by (cases tu)
  have "stateOk (finalizeBlock st)" using assms(1) by (rule stateOk_finalizeBlock)
  then show ?thesis
    using Some tu by (auto simp: blockStep_def Let_def stateOk_def)
qed

lemma stateOk_metadataStep:
  assumes "stateOk st" and "10 \<notin> set l"
  shows "stateOk (metadataStep st l)"
  using assms stateOk_blockStep[OF assms]
  by (auto simp: metadataStep_def stateOk_def split: option.splits)

lemma stateOk_lineStep:
  assumes "stateOk st" and "10 \<notin> set l"
  shows "stateOk (lineStep st l)"
proof (cases "pageMatch l")
  case None
  then show ?thesis using stateOk_metadataStep[OF assms] by (simp add: lineStep_def)
next
  case (Some d)
  have "stateOk (finalizePage st)" using assms(1) by (rule stateOk_finalizePage)
  moreover have "currentBlock (finalizePage st) = None \<or>
      currentBlock (finalizePage st) = currentBlock st"
    by (auto simp: finalizePage_def finalizeBlock_def Let_def split: option.splits)
  ultimately show ?thesis
    using Some by (auto simp: lineStep_def stateOk_def)
qed

lemma stateOk_foldl:
  "stateOk st \<Longrightarrow> \<forall>l \<in> set ls. 10 \<notin> set l \<Longrightarrow> stateOk (foldl lineStep st ls)"
  by (induction ls arbitrary: st) (simp_all add: stateOk_lineStep)

lemma blockOk_scanLines:
  assumes "p \<in> set (scanLines (splitOn 10 s))" and "b \<in> set (blocks p)"
  shows "blockOk b"
proof -
  have "\<forall>l \<in> set (splitOn 10 s). 10 \<notin> set l" using splitOn_no_sep by blast
  then have "stateOk (foldl lineStep initialState (splitOn 10 s))"
    using stateOk_initial by (intro stateOk_foldl)
  then have "stateOk (finalizePage (foldl lineStep initialState (splitOn 10 s)))"
    by (rule stateOk_finalizePage)
  then show ?thesis using assms by (auto simp: scanLines_def stateOk_def)
qed

lemma blockOk_parseDocument:
  assumes "p \<in> set (pages (parseDocument s))" and "b \<in> set (blocks p)"
  shows "blockOk b"
proof (cases "scanLines (splitOn 10 s) = []")
  case True
  then have "p = fallbackPage s" using assms(1) by (simp add: pages_parseDocument)
  then show ?thesis using assms(2) blockOk_fallback by blast
next
  case False
  then have "p \<in> set (scanLines (splitOn 10 s))"
    using assms(1) by (simp add: pages_parseDocument)
  then show ?thesis using assms(2) by (rule blockOk_scanLines)
qed

lemma pages_DOC_INDENTED_ROW:
  "pages (parseDocument DOC_INDENTED_ROW) =
     [\<lparr>pageNo = 1, sheetLabel = None, sheetName = None,
       blocks = [\<lparr>uid = asc ''A-B-C'', type = TEXT, content = asc ''|a|'', hasTable = False,
                  hasError = False, errorText = None, sectionTitle = None,
                  tables = []\<rparr>]\<rparr>]"
  by (simp add: pages_parseDocument scanLines_def DOC_INDENTED_ROW_def parser_eval string_eval
      isAsciiUpper_def Let_def)

lemma pages_DOC_FALLBACK_ROW:
  "pages (parseDocument DOC_FALLBACK_ROW) = [fallbackPage DOC_FALLBACK_ROW]"
proof -
  have "\<forall>l \<in> set (splitOn 10 DOC_FALLBACK_ROW). \<not> isMarker l"
    by (simp add: DOC_FALLBACK_ROW_def isMarker_def pageMatch_def blockMatch_def PAGE_PREFIX_def)
  then have "scanLines (splitOn 10 DOC_FALLBACK_ROW) = []" by (rule scanLines_no_marker)
  then show ?thesis by (simp add: pages_parseDocument)
qed

lemma pages_DOC_ERROR:
  "pages (parseDocument DOC_ERROR) =
     [\<lparr>pageNo = 1, sheetLabel = None, sheetName = None, blocks = [BLOCK_ERROR]\<rparr>]"
  by (simp add: pages_parseDocument scanLines_def DOC_ERROR_def LINE_BLOCK_TEXT_def
      BLOCK_ERROR_def parser_eval string_eval isAsciiUpper_def Let_def)

text \<open>
  C8, as the spec states it, fails from right to left: a table row in the content of
  a block does not make \<open>hasTable\<close> true. The flag is computed on the raw lines of the
  block and the content is trimmed: a block whose only line is \<open>|a|\<close> behind a space
  has the content \<open>|a|\<close>, a table row, and neither the flag nor a table. The fallback
  block tests the whole input as one string: for the input of the lines \<open>x\<close> and
  \<open>|a|\<close> the content has a row as its second line, and neither the flag nor a table.
\<close>

theorem has_table_counterexample:
  "pages (parseDocument DOC_INDENTED_ROW) =
     [\<lparr>pageNo = 1, sheetLabel = None, sheetName = None,
       blocks = [\<lparr>uid = asc ''A-B-C'', type = TEXT, content = asc ''|a|'', hasTable = False,
                  hasError = False, errorText = None, sectionTitle = None,
                  tables = []\<rparr>]\<rparr>] \<and>
   isTableRow (asc ''|a|'') \<and>
   list_ex isTableRow (splitOn 10 (asc ''|a|'')) \<and>
   pages (parseDocument DOC_FALLBACK_ROW) = [fallbackPage DOC_FALLBACK_ROW] \<and>
   map content (blocks (fallbackPage DOC_FALLBACK_ROW)) = [DOC_FALLBACK_ROW] \<and>
   map hasTable (blocks (fallbackPage DOC_FALLBACK_ROW)) = [False] \<and>
   map tables (blocks (fallbackPage DOC_FALLBACK_ROW)) = [[]] \<and>
   list_ex isTableRow (splitOn 10 DOC_FALLBACK_ROW)"
proof -
  have "isTableRow (asc ''|a|'')" "list_ex isTableRow (splitOn 10 (asc ''|a|''))"
    "list_ex isTableRow (splitOn 10 DOC_FALLBACK_ROW)"
    "\<not> isTableRow DOC_FALLBACK_ROW"
    by (simp_all add: DOC_FALLBACK_ROW_def isTableRow_def noLineTerminator_def
        isLineTerminator_def)
  then show ?thesis
    using pages_DOC_INDENTED_ROW pages_DOC_FALLBACK_ROW
    by (simp add: fallbackPage_def)
qed

text \<open>
  C8, amended. For every block that \<open>parseDocument\<close> produces, the fallback block
  too: when the list of tables is not empty \<open>hasTable\<close> is true; when \<open>hasTable\<close> is
  true a line of the content of the block matches the table-row pattern; \<open>hasError\<close>
  is true exactly when the error pattern is found in the content, and then the
  content contains a bracketed error marker. For a block built from the lines
  collected under a block header, \<open>hasTable\<close> is true exactly when one of these
  lines, as collected and before the content is trimmed, matches the table-row
  pattern.
\<close>

theorem block_flags_amended:
  "(\<forall>p \<in> set (pages (parseDocument s)). \<forall>b \<in> set (blocks p).
      (tables b \<noteq> [] \<longrightarrow> hasTable b) \<and>
      (hasTable b \<longrightarrow> list_ex isTableRow (splitOn 10 (content b))) \<and>
      hasError b = (errorMatch (content b) \<noteq> None) \<and>
      (hasError b \<longrightarrow> (\<exists>m. isErrorMarker m \<and> sublist m (content b)))) \<and>
   hasTable (buildBlock u ty ls) = list_ex isTableRow ls"
proof -
  have "(tables b \<noteq> [] \<longrightarrow> hasTable b) \<and>
      (hasTable b \<longrightarrow> list_ex isTableRow (splitOn 10 (content b))) \<and>
      hasError b = (errorMatch (content b) \<noteq> None) \<and>
      (hasError b \<longrightarrow> (\<exists>m. isErrorMarker m \<and> sublist m (content b)))"
    if "p \<in> set (pages (parseDocument s))" "b \<in> set (blocks p)" for p b
    using blockOk_parseDocument[OF that] unfolding blockOk_def by blast
  moreover have "hasTable (buildBlock u ty ls) = list_ex isTableRow ls"
    by (simp add: buildBlock_def Let_def)
  ultimately show ?thesis by blast
qed

theorem block_flags_amended_witness:
  "pages (parseDocument DOC_BRICK) =
     [\<lparr>pageNo = 1, sheetLabel = None, sheetName = None, blocks = [BLOCK_BRICK]\<rparr>] \<and>
   tables BLOCK_BRICK \<noteq> [] \<and> hasTable BLOCK_BRICK \<and>
   list_ex isTableRow (splitOn 10 (content BLOCK_BRICK)) \<and>
   pages (parseDocument DOC_ERROR) =
     [\<lparr>pageNo = 1, sheetLabel = None, sheetName = None, blocks = [BLOCK_ERROR]\<rparr>] \<and>
   hasError BLOCK_ERROR \<and>
   (\<exists>m. isErrorMarker m \<and> sublist m (content BLOCK_ERROR))"
proof -
  have p: "pages (parseDocument DOC_BRICK) =
     [\<lparr>pageNo = 1, sheetLabel = None, sheetName = None, blocks = [BLOCK_BRICK]\<rparr>]"
    by (simp add: parse_DOC_BRICK)
  have t: "tables BLOCK_BRICK \<noteq> []" "hasError BLOCK_ERROR"
    by (simp_all add: BLOCK_BRICK_def BLOCK_ERROR_def)
  have a: "hasTable BLOCK_BRICK \<and> list_ex isTableRow (splitOn 10 (content BLOCK_BRICK))"
    using block_flags_amended[of DOC_BRICK] p t(1) by simp
  have b: "\<exists>m. isErrorMarker m \<and> sublist m (content BLOCK_ERROR)"
    using block_flags_amended[of DOC_ERROR] pages_DOC_ERROR t(2) by simp
  show ?thesis using p t a b pages_DOC_ERROR by blast
qed

end
